theory Spec2Isabelle
  imports Main "HOL-Library.Word" "HOL-Library.Sublist"
begin

section \<open>Values that cross the cgo boundary\<close>

text \<open>
  Go's \<open>int\<close> is a 64-bit two's-complement integer on the targets cgo supports; it is read
  with \<open>sint\<close>. A \<open>float64\<close> (and \<open>C.double\<close>, which cgo maps to the same type) is kept as
  its IEEE-754 bit pattern: the code below only copies such values, it never computes
  with them.

  \<open>C.HighsInt\<close> is declared in a header that is not part of the sources. It is a signed
  C integer of some width, so it is a word \<open>'h word\<close> of a length that stays a parameter.
  The conversions \<open>int(x)\<close> and \<open>C.HighsInt(x)\<close> are \<open>scast\<close>: sign extension when the
  target is wider, truncation when it is narrower.
\<close>

type_synonym go_int = "64 word"
type_synonym float64 = "64 word"

text \<open>
  The three status constants come from \<open>highs-externs.h\<close>, which is not part of the
  sources either: they are parameters of everything below.
\<close>

record 'hi highs_externs =
  kHighsStatusOk :: 'hi
  kHighsStatusWarning :: 'hi
  kHighsStatusError :: 'hi

text \<open>Run-time panics of the Go runtime that the code below can raise.\<close>

datatype panic = IndexOutOfRange | MakeSliceLenOutOfRange

section \<open>utils.go: HighsStatus\<close>

record HighsStatus =
  Status :: go_int
  CName :: string
  GoName :: string

text \<open>
  A value of Go's interface type \<open>error\<close> is here either what \<open>fmt.Errorf\<close> built (only
  its message matters) or a \<open>HighsStatus\<close>; \<open>nil\<close> is \<open>None\<close>.
\<close>

datatype error = Errorf string | HighsStatusError HighsStatus

text \<open>
  \<open>HighsStatus.Error\<close>: the \<open>switch\<close> takes the first case that matches; each branch
  returns its string literal as it stands.
\<close>

definition Error :: "('h::len) word highs_externs \<Rightarrow> HighsStatus \<Rightarrow> string" where
  "Error K e =
     (if Status e = scast (kHighsStatusError K) then ''%s failed with an error''
      else if Status e = scast (kHighsStatusWarning K) then ''%s failed with a warning''
      else ''%s failed with an unknown status'')"

definition IsWarning :: "('h::len) word highs_externs \<Rightarrow> HighsStatus \<Rightarrow> bool" where
  "IsWarning K e \<longleftrightarrow> Status e = scast (kHighsStatusWarning K)"

definition newHighsStatus ::
  "('h::len) word highs_externs \<Rightarrow> 'h word \<Rightarrow> string \<Rightarrow> string \<Rightarrow> error option" where
  "newHighsStatus K st hName gName =
     (if st = kHighsStatusOk K then None
      else Some (HighsStatusError \<lparr>Status = scast st, CName = hName, GoName = gName\<rparr>))"

text \<open>The message an \<open>error\<close> value reports through its \<open>Error\<close> method.\<close>

fun error_message :: "('h::len) word highs_externs \<Rightarrow> error \<Rightarrow> string" where
  "error_message K (Errorf msg) = msg"
| "error_message K (HighsStatusError e) = Error K e"

section \<open>utils.go: convertSlice\<close>

text \<open>
  \<open>to[i] = v\<close> on a slice: the Go runtime panics when \<open>i\<close> is not below the length.
\<close>

definition store :: "'a list \<Rightarrow> nat \<Rightarrow> 'a \<Rightarrow> panic + 'a list" where
  "store xs i v = (if i < length xs then Inr (xs[i := v]) else Inl IndexOutOfRange)"

text \<open>
  The \<open>range\<close> loop of \<open>convertSlice\<close>: \<open>i\<close> is the index of the next element, \<open>to\<close> the
  destination so far. The conversion \<open>T(f)\<close> is the parameter \<open>T\<close>.
\<close>

fun convertSlice_loop :: "('f \<Rightarrow> 't) \<Rightarrow> nat \<Rightarrow> 'f list \<Rightarrow> 't list \<Rightarrow> panic + 't list" where
  "convertSlice_loop T i [] to = Inr to"
| "convertSlice_loop T i (f # rest) to =
     (case store to i (T f) of
        Inl p \<Rightarrow> Inl p
      | Inr to' \<Rightarrow> convertSlice_loop T (Suc i) rest to')"

text \<open>
  \<open>make([]T, len(from))\<close> fills the destination with the zero value of \<open>T\<close>, here the
  parameter \<open>zero\<close>.
\<close>

definition convertSlice :: "('f \<Rightarrow> 't) \<Rightarrow> 't \<Rightarrow> 'f list \<Rightarrow> panic + 't list" where
  "convertSlice T zero frm = convertSlice_loop T 0 frm (replicate (length frm) zero)"

section \<open>The engine behind the cgo calls\<close>

text \<open>
  The HiGHS functions are C code outside the sources. Each one is a parameter: a function
  from the engine's state (what the opaque pointer \<open>obj\<close> points to) and the arguments to
  the returned status, the values written through pointer arguments, and the state after
  the call. A pointer argument \<open>&val\<close> passes the current value in and gives the value
  after the call back.
\<close>

record ('s, 'hi) Highs =
  Highs_setBoolOptionValue :: "'s \<Rightarrow> string \<Rightarrow> 'hi \<Rightarrow> 'hi \<times> 's"
  Highs_setIntOptionValue :: "'s \<Rightarrow> string \<Rightarrow> 'hi \<Rightarrow> 'hi \<times> 's"
  Highs_setDoubleOptionValue :: "'s \<Rightarrow> string \<Rightarrow> float64 \<Rightarrow> 'hi \<times> 's"
  Highs_setStringOptionValue :: "'s \<Rightarrow> string \<Rightarrow> string \<Rightarrow> 'hi \<times> 's"
  Highs_getBoolOptionValue :: "'s \<Rightarrow> string \<Rightarrow> 'hi \<Rightarrow> 'hi \<times> 'hi \<times> 's"
  Highs_getIntOptionValue :: "'s \<Rightarrow> string \<Rightarrow> 'hi \<Rightarrow> 'hi \<times> 'hi \<times> 's"
  Highs_getDoubleOptionValue :: "'s \<Rightarrow> string \<Rightarrow> float64 \<Rightarrow> 'hi \<times> float64 \<times> 's"
  Highs_getStringOptionValue :: "'s \<Rightarrow> string \<Rightarrow> string \<Rightarrow> 'hi \<times> string \<times> 's"
  Highs_run :: "'s \<Rightarrow> 'hi \<times> 's"
  Highs_getModelStatus :: "'s \<Rightarrow> 'hi \<times> 's"
  Highs_getNumCol :: "'s \<Rightarrow> 'hi \<times> 's"
  Highs_getNumRow :: "'s \<Rightarrow> 'hi \<times> 's"
  Highs_getSolution ::
    "'s \<Rightarrow> float64 list \<Rightarrow> float64 list \<Rightarrow> float64 list \<Rightarrow> float64 list
      \<Rightarrow> 'hi \<times> (float64 list \<times> float64 list \<times> float64 list \<times> float64 list) \<times> 's"

text \<open>
  \<open>C.CString\<close> copies the Go string and appends a NUL; what C code reads through the
  resulting pointer is the string up to its first NUL byte. \<open>C.GoString\<close> reads a C buffer
  up to its first NUL byte in the same way.
\<close>

definition CString :: "string \<Rightarrow> string" where
  "CString s = takeWhile (\<lambda>c. c \<noteq> CHR 0x00) s"

definition GoString :: "string \<Rightarrow> string" where
  "GoString buf = takeWhile (\<lambda>c. c \<noteq> CHR 0x00) buf"

text \<open>\<open>C.calloc(n, 1)\<close>: a buffer of \<open>n\<close> NUL bytes.\<close>

definition calloc :: "nat \<Rightarrow> string" where
  "calloc n = replicate n (CHR 0x00)"

section \<open>The low-level model: option accessors\<close>

record 's RawModel =
  obj :: 's

definition SetBoolOption ::
  "'hi highs_externs \<Rightarrow> ('s, ('hi::{zero,one})) Highs \<Rightarrow> 's RawModel \<Rightarrow> string \<Rightarrow> bool
    \<Rightarrow> error option \<times> 's RawModel" where
  "SetBoolOption K H m opt v =
     (let str = CString opt;
          val = (if v then 1 else 0);
          (st, obj') = Highs_setBoolOptionValue H (obj m) str val
      in ((if st = kHighsStatusOk K then None
           else if st = kHighsStatusError K then Some (Errorf ''SetBoolOption error'')
           else if st = kHighsStatusWarning K then Some (Errorf ''SetBoolOption warning'')
           else Some (Errorf ''SetBoolOption unknown status'')),
          m\<lparr>obj := obj'\<rparr>))"

definition SetIntOption ::
  "('h::len) word highs_externs \<Rightarrow> ('s, 'h word) Highs \<Rightarrow> 's RawModel \<Rightarrow> string \<Rightarrow> go_int
    \<Rightarrow> error option \<times> 's RawModel" where
  "SetIntOption K H m opt v =
     (let str = CString opt;
          val = scast v;
          (st, obj') = Highs_setIntOptionValue H (obj m) str val
      in ((if st = kHighsStatusOk K then None
           else if st = kHighsStatusError K then Some (Errorf ''SetIntOption error'')
           else if st = kHighsStatusWarning K then Some (Errorf ''SetIntOption warning'')
           else Some (Errorf ''SetIntOption unknown status'')),
          m\<lparr>obj := obj'\<rparr>))"

definition SetFloat64Option ::
  "'hi highs_externs \<Rightarrow> ('s, 'hi) Highs \<Rightarrow> 's RawModel \<Rightarrow> string \<Rightarrow> float64
    \<Rightarrow> error option \<times> 's RawModel" where
  "SetFloat64Option K H m opt v =
     (let str = CString opt;
          val = v;
          (st, obj') = Highs_setDoubleOptionValue H (obj m) str val
      in ((if st = kHighsStatusOk K then None
           else if st = kHighsStatusError K then Some (Errorf ''SetFloat64Option error'')
           else if st = kHighsStatusWarning K then Some (Errorf ''SetFloat64Option warning'')
           else Some (Errorf ''SetFloat64Option unknown status'')),
          m\<lparr>obj := obj'\<rparr>))"

definition SetStringOption ::
  "'hi highs_externs \<Rightarrow> ('s, 'hi) Highs \<Rightarrow> 's RawModel \<Rightarrow> string \<Rightarrow> string
    \<Rightarrow> error option \<times> 's RawModel" where
  "SetStringOption K H m opt v =
     (let str = CString opt;
          val = CString v;
          (st, obj') = Highs_setStringOptionValue H (obj m) str val
      in ((if st = kHighsStatusOk K then None
           else if st = kHighsStatusError K then Some (Errorf ''SetStringOption error'')
           else if st = kHighsStatusWarning K then Some (Errorf ''SetStringOption warning'')
           else Some (Errorf ''SetStringOption unknown status'')),
          m\<lparr>obj := obj'\<rparr>))"

text \<open>
  The getters return the value together with the error; on every failure branch the
  value is the zero value the source writes there.
\<close>

definition GetBoolOption ::
  "'hi highs_externs \<Rightarrow> ('s, ('hi::zero)) Highs \<Rightarrow> 's RawModel \<Rightarrow> string
    \<Rightarrow> (bool \<times> error option) \<times> 's RawModel" where
  "GetBoolOption K H m opt =
     (let str = CString opt;
          (st, val, obj') = Highs_getBoolOptionValue H (obj m) str 0
      in ((if st = kHighsStatusOk K then (val \<noteq> 0, None)
           else if st = kHighsStatusError K then (False, Some (Errorf ''GetBoolOption error''))
           else if st = kHighsStatusWarning K then (False, Some (Errorf ''GetBoolOption warning''))
           else (False, Some (Errorf ''GetBoolOption unknown status''))),
          m\<lparr>obj := obj'\<rparr>))"

definition GetIntOption ::
  "('h::len) word highs_externs \<Rightarrow> ('s, 'h word) Highs \<Rightarrow> 's RawModel \<Rightarrow> string
    \<Rightarrow> (go_int \<times> error option) \<times> 's RawModel" where
  "GetIntOption K H m opt =
     (let str = CString opt;
          (st, val, obj') = Highs_getIntOptionValue H (obj m) str 0
      in ((if st = kHighsStatusOk K then (scast val, None)
           else if st = kHighsStatusError K then (0, Some (Errorf ''GetIntOption error''))
           else if st = kHighsStatusWarning K then (0, Some (Errorf ''GetIntOption warning''))
           else (0, Some (Errorf ''GetIntOption unknown status''))),
          m\<lparr>obj := obj'\<rparr>))"

definition GetFloat64Option ::
  "'hi highs_externs \<Rightarrow> ('s, 'hi) Highs \<Rightarrow> 's RawModel \<Rightarrow> string
    \<Rightarrow> (float64 \<times> error option) \<times> 's RawModel" where
  "GetFloat64Option K H m opt =
     (let str = CString opt;
          (st, val, obj') = Highs_getDoubleOptionValue H (obj m) str 0
      in ((if st = kHighsStatusOk K then (val, None)
           else if st = kHighsStatusError K then (0, Some (Errorf ''GetFloat64Option error''))
           else if st = kHighsStatusWarning K then (0, Some (Errorf ''GetFloat64Option warning''))
           else (0, Some (Errorf ''GetFloat64Option unknown status''))),
          m\<lparr>obj := obj'\<rparr>))"

definition GetStringOption ::
  "'hi highs_externs \<Rightarrow> ('s, 'hi) Highs \<Rightarrow> 's RawModel \<Rightarrow> string
    \<Rightarrow> (string \<times> error option) \<times> 's RawModel" where
  "GetStringOption K H m opt =
     (let str = CString opt;
          (st, val, obj') = Highs_getStringOptionValue H (obj m) str (calloc 65536)
      in ((if st = kHighsStatusOk K then (GoString val, None)
           else if st = kHighsStatusError K then ([], Some (Errorf ''GetStringOption error''))
           else if st = kHighsStatusWarning K then ([], Some (Errorf ''GetStringOption warning''))
           else ([], Some (Errorf ''GetStringOption unknown status''))),
          m\<lparr>obj := obj'\<rparr>))"

section \<open>The low-level model: Solve\<close>

text \<open>
  \<open>ModelStatus\<close>, \<open>BasisStatus\<close> and \<open>convertHighsModelStatus\<close> are declared outside the
  sources: the two types are the parameters \<open>'ms\<close> and \<open>'bs\<close>, and \<open>Solve\<close> takes the
  conversion and the zero value of \<open>ModelStatus\<close> as arguments. A \<open>nil\<close> slice and an
  empty one are both \<open>[]\<close>; the \<open>nil\<close> pointer \<open>obj\<close> of a fresh \<open>RawSolution\<close> is \<open>None\<close>.
  The fields \<open>obj\<close> and \<open>Status\<close> are \<open>soln_obj\<close> and \<open>soln_Status\<close> here, since
  \<open>RawModel\<close> and \<open>HighsStatus\<close> have fields of these names.
\<close>

record ('s, 'ms, 'bs) RawSolution =
  soln_obj :: "'s option"
  soln_Status :: 'ms
  ColumnPrimal :: "float64 list"
  RowPrimal :: "float64 list"
  ColumnDual :: "float64 list"
  RowDual :: "float64 list"
  ColumnBasis :: "'bs list"
  RowBasis :: "'bs list"
  Objective :: float64

text \<open>\<open>&RawSolution{}\<close>: every field has its zero value.\<close>

definition RawSolution_zero :: "'ms \<Rightarrow> ('s, 'ms, 'bs) RawSolution" where
  "RawSolution_zero zeroStatus =
     \<lparr>soln_obj = None, soln_Status = zeroStatus,
      ColumnPrimal = [], RowPrimal = [], ColumnDual = [], RowDual = [],
      ColumnBasis = [], RowBasis = [], Objective = 0\<rparr>"

text \<open>
  \<open>make([]T, n)\<close> panics for a negative length and otherwise gives \<open>n\<close> zero values.
  (Running out of memory for a huge \<open>n\<close> ends the process; that is not modelled.)
\<close>

definition makeslice :: "go_int \<Rightarrow> 'a \<Rightarrow> panic + 'a list" where
  "makeslice n zero =
     (if sint n < 0 then Inl MakeSliceLenOutOfRange else Inr (replicate (nat (sint n)) zero))"

text \<open>\<open>&xs[0]\<close>: indexing element 0 panics on an empty slice.\<close>

definition addr0 :: "'a list \<Rightarrow> panic + unit" where
  "addr0 xs = (if 0 < length xs then Inr () else Inl IndexOutOfRange)"

text \<open>
  What a Go slice holds after C code wrote \<open>out\<close> through a pointer to its first element:
  the slice keeps its length, the values written replace its front.
\<close>

definition written :: "'a list \<Rightarrow> 'a list \<Rightarrow> 'a list" where
  "written buf out = take (length buf) out @ drop (length out) buf"

text \<open>A panic ends the function at once: the rest runs only on a result.\<close>

definition and_then :: "panic + 'a \<Rightarrow> ('a \<Rightarrow> panic + 'b) \<Rightarrow> panic + 'b" where
  "and_then r f = (case r of Inl p \<Rightarrow> Inl p | Inr x \<Rightarrow> f x)"

text \<open>
  The output buffers of \<open>Solve\<close> and the four \<open>&xs[0]\<close> of the call that fills them.
  Arguments of a call are evaluated from left to right, so the four are tried in the
  order written.
\<close>

definition Solve_buffers ::
  "go_int \<Rightarrow> go_int
    \<Rightarrow> panic + (float64 list \<times> float64 list \<times> float64 list \<times> float64 list)" where
  "Solve_buffers nc nr =
     and_then (makeslice nc 0) (\<lambda>colValue.
     and_then (makeslice nc 0) (\<lambda>colDual.
     and_then (makeslice nr 0) (\<lambda>rowValue.
     and_then (makeslice nr 0) (\<lambda>rowDual.
     and_then (addr0 colValue) (\<lambda>_.
     and_then (addr0 colDual) (\<lambda>_.
     and_then (addr0 rowValue) (\<lambda>_.
     and_then (addr0 rowDual) (\<lambda>_.
     Inr (colValue, colDual, rowValue, rowDual)))))))))"

text \<open>
  The end of \<open>Solve\<close>: the four vectors are converted with
  \<open>convertSlice[float64, C.double]\<close>, whose conversion is the identity on the bit pattern.
\<close>

definition Solve_convert ::
  "('s, 'ms, 'bs) RawSolution \<Rightarrow> float64 list \<Rightarrow> float64 list \<Rightarrow> float64 list
    \<Rightarrow> float64 list \<Rightarrow> panic + ('s, 'ms, 'bs) RawSolution" where
  "Solve_convert soln colValue colDual rowValue rowDual =
     and_then (convertSlice (\<lambda>x. x) 0 colValue) (\<lambda>cp.
     and_then (convertSlice (\<lambda>x. x) 0 rowValue) (\<lambda>rp.
     and_then (convertSlice (\<lambda>x. x) 0 colDual) (\<lambda>cd.
     and_then (convertSlice (\<lambda>x. x) 0 rowDual) (\<lambda>rd.
     Inr (soln\<lparr>ColumnPrimal := cp, RowPrimal := rp, ColumnDual := cd, RowDual := rd\<rparr>)))))"

text \<open>
  The part of \<open>Solve\<close> after a successful run: \<open>o1\<close> is the engine's state after
  \<open>Highs_run\<close>, \<open>soln\<close> the solution allocated at the start.
\<close>

definition Solve_extract ::
  "('h::len) word highs_externs \<Rightarrow> ('s, 'h word) Highs \<Rightarrow> ('h word \<Rightarrow> 'ms) \<Rightarrow> 'ms
    \<Rightarrow> 's RawModel \<Rightarrow> ('s, 'ms, 'bs) RawSolution \<Rightarrow> 's
    \<Rightarrow> panic + ((('s, 'ms, 'bs) RawSolution \<times> error option) \<times> 's RawModel)" where
  "Solve_extract K H convertHighsModelStatus zeroStatus m soln0 o1 =
     (let r1 = Highs_getModelStatus H o1;
          soln = soln0\<lparr>soln_Status := convertHighsModelStatus (fst r1)\<rparr>;
          r2 = Highs_getNumCol H (snd r1);
          nc = (scast (fst r2) :: go_int);
          r3 = Highs_getNumRow H (snd r2);
          nr = (scast (fst r3) :: go_int)
      in and_then (Solve_buffers nc nr) (\<lambda>(colValue, colDual, rowValue, rowDual).
           (let r4 = Highs_getSolution H (snd r3) colValue colDual rowValue rowDual;
                st = fst r4;
                colValue' = written colValue (fst (fst (snd r4)));
                colDual' = written colDual (fst (snd (fst (snd r4))));
                rowValue' = written rowValue (fst (snd (snd (fst (snd r4)))));
                rowDual' = written rowDual (snd (snd (snd (fst (snd r4)))));
                m' = m\<lparr>obj := snd (snd r4)\<rparr>
            in if st = kHighsStatusOk K then
                 and_then (Solve_convert soln colValue' colDual' rowValue' rowDual')
                   (\<lambda>soln'. Inr ((soln', None), m'))
               else if st = kHighsStatusWarning K then
                 Inr ((RawSolution_zero zeroStatus,
                       Some (Errorf ''Highs_getSolution failed with a warning'')), m')
               else if st = kHighsStatusError K then
                 Inr ((RawSolution_zero zeroStatus,
                       Some (Errorf ''Highs_getSolution failed with an error'')), m')
               else
                 Inr ((RawSolution_zero zeroStatus,
                       Some (Errorf ''Highs_getSolution failed with an unknown status'')), m'))))"

text \<open>
  \<open>RawModel.Solve\<close>. The result is a panic, or the returned pair of solution and error
  together with the model after the engine calls.
\<close>

definition Solve ::
  "('h::len) word highs_externs \<Rightarrow> ('s, 'h word) Highs \<Rightarrow> ('h word \<Rightarrow> 'ms) \<Rightarrow> 'ms
    \<Rightarrow> 's RawModel
    \<Rightarrow> panic + ((('s, 'ms, 'bs) RawSolution \<times> error option) \<times> 's RawModel)" where
  "Solve K H convertHighsModelStatus zeroStatus m =
     (let soln = RawSolution_zero zeroStatus;
          r0 = Highs_run H (obj m);
          success = fst r0
      in if success = kHighsStatusOk K then
           Solve_extract K H convertHighsModelStatus zeroStatus m soln (snd r0)
         else if success = kHighsStatusWarning K then
           Inr ((soln, Some (Errorf ''model failed with a warning'')), m\<lparr>obj := snd r0\<rparr>)
         else if success = kHighsStatusError K then
           Inr ((soln, Some (Errorf ''model failed with an error'')), m\<lparr>obj := snd r0\<rparr>)
         else
           Inr ((soln, Some (Errorf ''model failed with an unknown status'')),
                m\<lparr>obj := snd r0\<rparr>))"

section \<open>The sparse-matrix converter\<close>

text \<open>
  Modelled from the spec: \<open>nonzerosToCSR\<close>, the type \<open>Nonzero\<close> and the error it returns
  are not in the sources, which only hold the test that calls the converter. What the
  test fixes is kept: the converter is called with the triples and one flag and nothing
  else, and its \<open>start\<close> has one offset per slot of the compressed axis, with no total
  after the last one. The rest follows the specification: its data model (a triple of
  row, column and value), the flag that selects row-major or column-major compression,
  the dimension inferred as one plus the largest index, and the algorithm of its
  converter contract. The value type stays a parameter; its zero fills the freshly
  allocated value array.
\<close>

record 'v Nonzero =
  Row :: int
  Col :: int
  Val :: 'v

text \<open>Modelled from the spec: the error taxonomy of its error-handling design.\<close>

datatype failure = StructuralError | EngineWarning | EngineError | UnknownStatus

text \<open>
  Modelled from the spec: the index of a triple along the compressed axis (the column
  for column-major compression, the row otherwise) and along the free axis.
\<close>

definition compressed :: "bool \<Rightarrow> 'v Nonzero \<Rightarrow> int" where
  "compressed colMajor t = (if colMajor then Col t else Row t)"

definition free :: "bool \<Rightarrow> 'v Nonzero \<Rightarrow> int" where
  "free colMajor t = (if colMajor then Row t else Col t)"

text \<open>
  Modelled from the spec: the structural check. The converter is given no dimension, so
  the only index it can refuse is a negative one.
\<close>

definition non_negative :: "'v Nonzero \<Rightarrow> bool" where
  "non_negative t \<longleftrightarrow> 0 \<le> Row t \<and> 0 \<le> Col t"

text \<open>
  Modelled from the spec: a dimension is ``inferred as one plus the maximum referenced
  row/column index'', and is \<open>0\<close> when no index is referenced.
\<close>

definition max_index :: "int list \<Rightarrow> int" where
  "max_index xs = fold max xs (- 1)"

definition dimension :: "bool \<Rightarrow> 'v Nonzero list \<Rightarrow> nat" where
  "dimension colMajor nz = nat (1 + max_index (map (compressed colMajor) nz))"

text \<open>
  Modelled from the spec: ``a single pass to count per-axis occurrences'': \<open>counts\<close> has
  one slot per compressed-axis index, \<open>ks\<close> are the compressed-axis indices of the triples.
\<close>

fun count_pass :: "nat list \<Rightarrow> nat list \<Rightarrow> nat list" where
  "count_pass counts [] = counts"
| "count_pass counts (k # ks) = count_pass (counts[k := counts ! k + 1]) ks"

text \<open>
  Modelled from the spec: ``a prefix sum to build \<open>start\<close>'': the running total before
  each slot. As in the test, the list ends with the offset of the last slot.
\<close>

fun prefix_sum :: "nat \<Rightarrow> nat list \<Rightarrow> nat list" where
  "prefix_sum acc [] = []"
| "prefix_sum acc (c # cs) = acc # prefix_sum (acc + c) cs"

text \<open>
  Modelled from the spec: ``a second pass to place entries by walking a per-axis write
  cursor'': each triple is written at the cursor of its slot, which then advances.
\<close>

fun place ::
  "bool \<Rightarrow> nat list \<Rightarrow> int list \<Rightarrow> 'v list \<Rightarrow> 'v Nonzero list \<Rightarrow> int list \<times> 'v list" where
  "place colMajor cursor index val [] = (index, val)"
| "place colMajor cursor index val (t # ts) =
     (let k = nat (compressed colMajor t);
          pos = cursor ! k
      in place colMajor (cursor[k := pos + 1])
           (index[pos := free colMajor t]) (val[pos := Val t]) ts)"

text \<open>
  Modelled from the spec: the converter, with the two arguments of the call in the test.
  It validates every index first and fails with a \<open>StructuralError\<close>; otherwise it
  counts, builds \<open>start\<close> and places the entries, the cursors starting at the offsets.
\<close>

definition nonzerosToCSR ::
  "('v::zero) Nonzero list \<Rightarrow> bool \<Rightarrow> failure + (nat list \<times> int list \<times> 'v list)" where
  "nonzerosToCSR nz colMajor =
     (if list_all non_negative nz then
        (let counts = count_pass (replicate (dimension colMajor nz) 0)
                        (map (\<lambda>t. nat (compressed colMajor t)) nz);
             start = prefix_sum 0 counts;
             (index, val) = place colMajor start
                              (replicate (length nz) 0) (replicate (length nz) 0) nz
         in Inr (start, index, val))
      else Inl StructuralError)"

text \<open>
  The Go slice expression \<open>xs[lo:hi]\<close>, which panics unless \<open>lo \<le> hi \<le> len(xs)\<close>.
\<close>

definition slice :: "'a list \<Rightarrow> nat \<Rightarrow> nat \<Rightarrow> panic + 'a list" where
  "slice xs lo hi =
     (if lo \<le> hi \<and> hi \<le> length xs then Inr (take (hi - lo) (drop lo xs))
      else Inl IndexOutOfRange)"

text \<open>
  Reading slot \<open>i\<close> back as \<open>xs[start[i]:start[i+1]]\<close>: indexing \<open>start\<close> at \<open>i + 1\<close> panics
  when \<open>start\<close> has no such entry.
\<close>

definition segment :: "nat list \<Rightarrow> 'a list \<Rightarrow> nat \<Rightarrow> panic + 'a list" where
  "segment start xs i =
     (if Suc i < length start then slice xs (start ! i) (start ! Suc i)
      else Inl IndexOutOfRange)"

text \<open>
  Reading slot \<open>i\<close> back from a \<open>start\<close> without a total: the segment ends at the offset
  of the next slot, and the segment of the last slot at the end of \<open>xs\<close>.
\<close>

definition slot_segment :: "nat list \<Rightarrow> 'a list \<Rightarrow> nat \<Rightarrow> panic + 'a list" where
  "slot_segment start xs i =
     (if i < length start then
        slice xs (start ! i) (if Suc i < length start then start ! Suc i else length xs)
      else Inl IndexOutOfRange)"

text \<open>
  A \<open>start\<close> array as the specification words it for a compressed axis of \<open>d\<close> slots and
  \<open>n\<close> triples: \<open>d + 1\<close> offsets, non-decreasing, the first \<open>0\<close> and the last \<open>n\<close>.
\<close>

definition start_with_total :: "nat \<Rightarrow> nat \<Rightarrow> nat list \<Rightarrow> bool" where
  "start_with_total d n start \<longleftrightarrow>
     length start = d + 1 \<and> sorted start \<and> start ! 0 = 0 \<and> start ! d = n"

text \<open>
  \<open>TestMakeSparseMatrix\<close>, from the test file: its matrix, and the test itself, which
  passes when the converter returns no error and the three slices are the expected ones.
  The values \<open>1.0\<close>, \<open>2.0\<close> and \<open>3.0\<close> are written as their IEEE-754 bit patterns.
  (\<open>compSlices\<close> is not in the sources; it is taken to compare two slices element by
  element.)
\<close>

definition TestMakeSparseMatrix_CoeffMatrix :: "float64 Nonzero list" where
  "TestMakeSparseMatrix_CoeffMatrix =
     [\<lparr>Row = 0, Col = 1, Val = 0x3FF0000000000000\<rparr>,
      \<lparr>Row = 1, Col = 0, Val = 0x3FF0000000000000\<rparr>,
      \<lparr>Row = 1, Col = 1, Val = 0x4000000000000000\<rparr>,
      \<lparr>Row = 2, Col = 0, Val = 0x4008000000000000\<rparr>,
      \<lparr>Row = 2, Col = 1, Val = 0x4000000000000000\<rparr>]"

definition TestMakeSparseMatrix :: bool where
  "TestMakeSparseMatrix \<longleftrightarrow>
     (case nonzerosToCSR TestMakeSparseMatrix_CoeffMatrix False of
        Inl err \<Rightarrow> False
      | Inr r \<Rightarrow>
          fst r = [0, 1, 3] \<and>
          fst (snd r) = [1, 0, 1, 0, 1] \<and>
          snd (snd r) = [0x3FF0000000000000, 0x3FF0000000000000, 0x4000000000000000,
                         0x4008000000000000, 0x4000000000000000])"

section \<open>The model-to-engine adapter\<close>

text \<open>
  Modelled from the spec: the high-level model and its adapter are not in the sources.
  The record follows the specification's data model.
\<close>

datatype sense = Minimize | Maximize

record 'v LPModel =
  sense :: sense
  offset :: 'v
  columnCosts :: "'v list"
  columnLower :: "'v list"
  columnUpper :: "'v list"
  rowLower :: "'v list"
  rowUpper :: "'v list"
  coefficients :: "'v Nonzero list"

text \<open>
  Modelled from the spec: step 1 of the adapter,
  \<open>N = max(len(columnCosts), len(columnLower), len(columnUpper), 1 + max column index, 0)\<close>
  and the same for \<open>M\<close> from the row arrays and the largest row index.
\<close>

definition infer_N :: "'v LPModel \<Rightarrow> nat" where
  "infer_N lp =
     max (max (length (columnCosts lp)) (max (length (columnLower lp)) (length (columnUpper lp))))
         (nat (max (1 + max_index (map Col (coefficients lp))) 0))"

definition infer_M :: "'v LPModel \<Rightarrow> nat" where
  "infer_M lp =
     max (max (length (rowLower lp)) (length (rowUpper lp)))
         (nat (max (1 + max_index (map Row (coefficients lp))) 0))"

text \<open>
  Modelled from the spec: step 2, a bound array left empty becomes an array of the
  inferred length filled with the given infinity.
\<close>

definition default_bounds :: "nat \<Rightarrow> 'v \<Rightarrow> 'v list \<Rightarrow> 'v list" where
  "default_bounds n infinity bs = (if bs = [] then replicate n infinity else bs)"

text \<open>What step 4 hands to the engine.\<close>

record 'v engine_model =
  em_sense :: sense
  em_offset :: 'v
  em_costs :: "'v list"
  em_colLower :: "'v list"
  em_colUpper :: "'v list"
  em_rowLower :: "'v list"
  em_rowUpper :: "'v list"
  em_start :: "nat list"
  em_index :: "int list"
  em_value :: "'v list"

datatype conversion_error = ConversionError failure

text \<open>
  Modelled from the spec: the adapter's steps in their order. Everything that touches
  the engine is step 4, the parameter \<open>push\<close>: it receives the finished arrays and returns
  the handle or the error together with the list of engine calls it made. The steps
  before it are pure, so a failure of step 3 comes with the empty list of calls.
  \<open>lower_inf\<close> and \<open>upper_inf\<close> are the two infinities of the value type.
\<close>

definition ToEngineModel ::
  "(('v::zero) engine_model \<Rightarrow> (conversion_error + 'handle) \<times> 'call list) \<Rightarrow> bool \<Rightarrow> 'v \<Rightarrow> 'v
    \<Rightarrow> 'v LPModel \<Rightarrow> (conversion_error + 'handle) \<times> 'call list" where
  "ToEngineModel push colMajor lower_inf upper_inf lp =
     (let N = infer_N lp;
          M = infer_M lp;
          colLower = default_bounds N lower_inf (columnLower lp);
          colUpper = default_bounds N upper_inf (columnUpper lp);
          rLower = default_bounds M lower_inf (rowLower lp);
          rUpper = default_bounds M upper_inf (rowUpper lp)
      in case nonzerosToCSR (coefficients lp) colMajor of
           Inl e \<Rightarrow> (Inl (ConversionError e), [])
         | Inr csr \<Rightarrow>
             push \<lparr>em_sense = sense lp, em_offset = offset lp, em_costs = columnCosts lp,
                   em_colLower = colLower, em_colUpper = colUpper,
                   em_rowLower = rLower, em_rowUpper = rUpper,
                   em_start = fst csr, em_index = fst (snd csr), em_value = snd (snd csr)\<rparr>)"

section \<open>The solution translator\<close>

text \<open>
  Modelled from the spec: the \<open>Status\<close> enum and \<open>convertHighsModelStatus\<close> are not in the
  sources. The specification names the variants and says that unmapped codes translate
  to the catch-all; it does not list the engine's codes, so the mapping of the known
  codes is the parameter \<open>table\<close>.
\<close>

datatype ModelStatus = Optimal | Infeasible | Unbounded | Other

definition convertHighsModelStatus :: "('c \<times> ModelStatus) list \<Rightarrow> 'c \<Rightarrow> ModelStatus" where
  "convertHighsModelStatus table code =
     (case map_of table code of Some s \<Rightarrow> s | None \<Rightarrow> Other)"

section \<open>Properties to state, and sample inputs\<close>

text \<open>
  A call surfaces the engine's status when its error is \<open>nil\<close> exactly for \<open>Ok\<close>, when
  a call that met \<open>Warning\<close> and a call that met \<open>Error\<close> return two different errors,
  neither of them \<open>nil\<close>, and when a code outside the three known ones gives an error
  too. \<open>st\<close> and \<open>err\<close> are the status and the error of one call, \<open>st'\<close> and \<open>err'\<close> those
  of another call of the same accessor.
\<close>

definition status_surfaced ::
  "'hi highs_externs \<Rightarrow> 'hi \<Rightarrow> error option \<Rightarrow> 'hi \<Rightarrow> error option \<Rightarrow> bool" where
  "status_surfaced K st err st' err' \<longleftrightarrow>
     ((err = None) = (st = kHighsStatusOk K)) \<and>
     (st = kHighsStatusWarning K \<and> st' = kHighsStatusError K \<longrightarrow>
        err \<noteq> None \<and> err' \<noteq> None \<and> err \<noteq> err') \<and>
     (st \<noteq> kHighsStatusOk K \<and> st \<noteq> kHighsStatusWarning K \<and> st \<noteq> kHighsStatusError K \<longrightarrow>
        err \<noteq> None)"

text \<open>
  The \<open>switch\<close> that ends every accessor, as a function of the status: \<open>e\<close>, \<open>w\<close> and
  \<open>u\<close> are the messages of its error, warning and default branches. It is used to
  reason about the accessors, which are written out above as the source has them.
\<close>

definition status_switch :: "'hi highs_externs \<Rightarrow> string \<Rightarrow> string \<Rightarrow> string \<Rightarrow> 'hi \<Rightarrow> error option" where
  "status_switch K e w u st =
     (if st = kHighsStatusOk K then None
      else if st = kHighsStatusError K then Some (Errorf e)
      else if st = kHighsStatusWarning K then Some (Errorf w)
      else Some (Errorf u))"

text \<open>
  A result of \<open>Solve\<close> hands out a partially populated solution with an error when it
  returns (no panic), the error is not \<open>nil\<close>, and some field of the solution differs
  from the zero value of a fresh \<open>RawSolution\<close>.
\<close>

definition partially_populated ::
  "'ms \<Rightarrow> panic + ((('s, 'ms, 'bs) RawSolution \<times> error option) \<times> 's RawModel) \<Rightarrow> bool" where
  "partially_populated zeroStatus r \<longleftrightarrow>
     (case r of
        Inl p \<Rightarrow> False
      | Inr x \<Rightarrow> snd (fst x) \<noteq> None \<and> fst (fst x) \<noteq> RawSolution_zero zeroStatus)"

text \<open>
  Sample inputs for the concrete instances below: the three status constants with the
  values \<open>0\<close>, \<open>1\<close> and \<open>-1\<close> on 32 bits, and an engine without state that answers every
  option call with \<open>opt_st\<close>, a run with \<open>run_st\<close>, and the request for the solution with
  \<open>sol_st\<close> and the given vectors.
\<close>

definition sample_externs :: "32 word highs_externs" where
  "sample_externs = \<lparr>kHighsStatusOk = 0, kHighsStatusWarning = 1, kHighsStatusError = - 1\<rparr>"

definition sample_engine ::
  "32 word \<Rightarrow> 32 word \<Rightarrow> 32 word \<Rightarrow> 32 word \<Rightarrow> 32 word \<Rightarrow> float64 list \<Rightarrow> float64 list
    \<Rightarrow> (unit, 32 word) Highs" where
  "sample_engine opt_st run_st sol_st nc nr cols rows =
     \<lparr>Highs_setBoolOptionValue = (\<lambda>s opt v. (opt_st, s)),
      Highs_setIntOptionValue = (\<lambda>s opt v. (opt_st, s)),
      Highs_setDoubleOptionValue = (\<lambda>s opt v. (opt_st, s)),
      Highs_setStringOptionValue = (\<lambda>s opt v. (opt_st, s)),
      Highs_getBoolOptionValue = (\<lambda>s opt v. (opt_st, 1, s)),
      Highs_getIntOptionValue = (\<lambda>s opt v. (opt_st, 7, s)),
      Highs_getDoubleOptionValue = (\<lambda>s opt v. (opt_st, 7, s)),
      Highs_getStringOptionValue = (\<lambda>s opt v. (opt_st, ''on'', s)),
      Highs_run = (\<lambda>s. (run_st, s)),
      Highs_getModelStatus = (\<lambda>s. (7, s)),
      Highs_getNumCol = (\<lambda>s. (nc, s)),
      Highs_getNumRow = (\<lambda>s. (nr, s)),
      Highs_getSolution = (\<lambda>s cv cd rv rd. (sol_st, (cols, cols, rows, rows), s))\<rparr>"

section \<open>HighsStatus\<close>

lemma scast_go_int_inj:
  fixes a b :: "('h::len) word"
  assumes "LENGTH('h) \<le> 64"
  shows "(scast a :: go_int) = scast b \<longleftrightarrow> a = b"
proof
  assume "(scast a :: go_int) = scast b"
  then have "sint (scast a :: go_int) = sint (scast b :: go_int)" by simp
  then have "sint a = sint b"
    using assms by (simp add: sint_up_scast is_up)
  then show "a = b" by (rule signed_word_eqI)
qed simp

lemma sint_scast_go_int:
  fixes a :: "('h::len) word"
  assumes "LENGTH('h) \<le> 64"
  shows "sint (scast a :: go_int) = sint a"
  using assms by (simp add: sint_up_scast is_up)

text \<open>
  C10. \<open>newHighsStatus\<close> returns \<open>nil\<close> exactly for \<open>kHighsStatusOk\<close>; for any other code it
  returns a \<open>HighsStatus\<close> that carries the code and both names, and whose \<open>IsWarning\<close>
  holds exactly when the code is \<open>kHighsStatusWarning\<close>. (\<open>C.HighsInt\<close> is at most as
  wide as Go's \<open>int\<close>.)
\<close>

theorem newHighsStatus_nil_iff_ok:
  fixes K :: "('h::len) word highs_externs"
  assumes "LENGTH('h) \<le> 64"
  shows "(newHighsStatus K st hName gName = None \<longleftrightarrow> st = kHighsStatusOk K) \<and>
         (st \<noteq> kHighsStatusOk K \<longrightarrow>
            (\<exists>e. newHighsStatus K st hName gName = Some (HighsStatusError e) \<and>
                 sint (Status e) = sint st \<and> CName e = hName \<and> GoName e = gName \<and>
                 (IsWarning K e \<longleftrightarrow> st = kHighsStatusWarning K)))"
  using assms
  by (auto simp: newHighsStatus_def IsWarning_def scast_go_int_inj sint_scast_go_int)

theorem newHighsStatus_nil_iff_ok_witness:
  "newHighsStatus sample_externs 0 ''Highs_run'' ''Solve'' = None \<and>
   (\<exists>e. newHighsStatus sample_externs 1 ''Highs_run'' ''Solve'' = Some (HighsStatusError e) \<and>
        sint (Status e) = 1 \<and> CName e = ''Highs_run'' \<and> GoName e = ''Solve'' \<and>
        IsWarning sample_externs e)"
proof -
  have h: "LENGTH(32) \<le> 64" by simp
  show ?thesis
    using newHighsStatus_nil_iff_ok [OF h, of sample_externs 0 "''Highs_run''" "''Solve''"]
      newHighsStatus_nil_iff_ok [OF h, of sample_externs 1 "''Highs_run''" "''Solve''"]
    by (simp add: sample_externs_def)
qed

lemma Error_ignores_names: "Error K (e\<lparr>CName := c, GoName := g\<rparr>) = Error K e"
  by (simp add: Error_def)

text \<open>
  C5. The string of \<open>HighsStatus.Error\<close> should contain the name of the HiGHS function,
  \<open>CName\<close>. The code returns the format string as it stands: for the status built for a
  failed \<open>Highs_run\<close> the message is \<open>%s failed with an error\<close>, which does not contain
  \<open>Highs_run\<close>.
\<close>

theorem Error_lacks_CName:
  "newHighsStatus sample_externs (- 1) ''Highs_run'' ''Solve''
     = Some (HighsStatusError \<lparr>Status = - 1, CName = ''Highs_run'', GoName = ''Solve''\<rparr>) \<and>
   map_option (error_message sample_externs)
       (newHighsStatus sample_externs (- 1) ''Highs_run'' ''Solve'')
     = Some ''%s failed with an error'' \<and>
   \<not> sublist ''Highs_run''
       (Error sample_externs \<lparr>Status = - 1, CName = ''Highs_run'', GoName = ''Solve''\<rparr>)"
  by (simp add: newHighsStatus_def Error_def sample_externs_def sublist_Cons_right prefix_Cons)

section \<open>convertSlice\<close>

lemma convertSlice_loop_map:
  "i + length xs = length to \<Longrightarrow>
   convertSlice_loop T i xs to = Inr (take i to @ map T xs)"
proof (induction xs arbitrary: i to)
  case Nil
  then show ?case by simp
next
  case (Cons x xs)
  then have i: "i < length to" by simp
  have "convertSlice_loop T (Suc i) xs (to[i := T x])
        = Inr (take (Suc i) (to[i := T x]) @ map T xs)"
    using Cons.prems by (intro Cons.IH) simp
  moreover have "take (Suc i) (to[i := T x]) = take i to @ [T x]"
    using i by (simp add: take_Suc_conv_app_nth)
  ultimately show ?case using i by (simp add: store_def)
qed

lemma convertSlice_map: "convertSlice T zero frm = Inr (map T frm)"
  by (simp add: convertSlice_def convertSlice_loop_map)

text \<open>
  C8. \<open>convertSlice\<close> returns (it never panics) a slice of the length of its input whose
  \<open>i\<close>-th element is the converted \<open>i\<close>-th input element; with the conversion between
  \<open>float64\<close> and \<open>C.double\<close>, which leaves the value as it is, the result is the input.
\<close>

theorem convertSlice_elementwise:
  "\<exists>to. convertSlice T zero frm = Inr to \<and> length to = length frm \<and>
        (\<forall>i<length frm. to ! i = T (frm ! i)) \<and>
        convertSlice (\<lambda>x. x) zero' frm = Inr frm"
  by (simp add: convertSlice_map)

theorem convertSlice_elementwise_witness:
  "(\<exists>to. convertSlice (\<lambda>x::32 word. scast x :: go_int) 0 [1, - 2, 3] = Inr to \<and>
         length to = 3 \<and> to ! 1 = - 2) \<and>
   convertSlice (\<lambda>x. x) 0 [0x3FF0000000000000, 0x4008000000000000 :: float64]
     = Inr [0x3FF0000000000000, 0x4008000000000000]"
  using convertSlice_elementwise [of "\<lambda>x::32 word. scast x :: go_int" 0 "[1, - 2, 3]" 0]
    convertSlice_elementwise [of "\<lambda>x. x" "0::float64"
       "[0x3FF0000000000000, 0x4008000000000000 :: float64]" 0]
  by (simp add: convertSlice_map)

section \<open>Option accessors\<close>

lemma status_surfaced_switch:
  assumes "distinct [kHighsStatusOk K, kHighsStatusWarning K, kHighsStatusError K]"
    and "w \<noteq> e"
  shows "status_surfaced K st (status_switch K e w u st) st' (status_switch K e w u st')"
  using assms by (auto simp: status_surfaced_def status_switch_def)

lemma SetBoolOption_error:
  "fst (SetBoolOption K H m opt b)
     = status_switch K ''SetBoolOption error'' ''SetBoolOption warning''
         ''SetBoolOption unknown status''
         (fst (Highs_setBoolOptionValue H (obj m) (CString opt) (if b then 1 else 0)))"
  by (simp add: SetBoolOption_def status_switch_def Let_def split_beta)

lemma SetIntOption_error:
  "fst (SetIntOption K H m opt i)
     = status_switch K ''SetIntOption error'' ''SetIntOption warning''
         ''SetIntOption unknown status''
         (fst (Highs_setIntOptionValue H (obj m) (CString opt) (scast i)))"
  by (simp add: SetIntOption_def status_switch_def Let_def split_beta)

lemma SetFloat64Option_error:
  "fst (SetFloat64Option K H m opt x)
     = status_switch K ''SetFloat64Option error'' ''SetFloat64Option warning''
         ''SetFloat64Option unknown status''
         (fst (Highs_setDoubleOptionValue H (obj m) (CString opt) x))"
  by (simp add: SetFloat64Option_def status_switch_def Let_def split_beta)

lemma SetStringOption_error:
  "fst (SetStringOption K H m opt s)
     = status_switch K ''SetStringOption error'' ''SetStringOption warning''
         ''SetStringOption unknown status''
         (fst (Highs_setStringOptionValue H (obj m) (CString opt) (CString s)))"
  by (simp add: SetStringOption_def status_switch_def Let_def split_beta)

lemma GetBoolOption_error:
  "snd (fst (GetBoolOption K H m opt))
     = status_switch K ''GetBoolOption error'' ''GetBoolOption warning''
         ''GetBoolOption unknown status''
         (fst (Highs_getBoolOptionValue H (obj m) (CString opt) 0))"
  by (simp add: GetBoolOption_def status_switch_def Let_def split_beta)

lemma GetIntOption_error:
  "snd (fst (GetIntOption K H m opt))
     = status_switch K ''GetIntOption error'' ''GetIntOption warning''
         ''GetIntOption unknown status''
         (fst (Highs_getIntOptionValue H (obj m) (CString opt) 0))"
  by (simp add: GetIntOption_def status_switch_def Let_def split_beta)

lemma GetFloat64Option_error:
  "snd (fst (GetFloat64Option K H m opt))
     = status_switch K ''GetFloat64Option error'' ''GetFloat64Option warning''
         ''GetFloat64Option unknown status''
         (fst (Highs_getDoubleOptionValue H (obj m) (CString opt) 0))"
  by (simp add: GetFloat64Option_def status_switch_def Let_def split_beta)

lemma GetStringOption_error:
  "snd (fst (GetStringOption K H m opt))
     = status_switch K ''GetStringOption error'' ''GetStringOption warning''
         ''GetStringOption unknown status''
         (fst (Highs_getStringOptionValue H (obj m) (CString opt) (calloc 65536)))"
  by (simp add: GetStringOption_def status_switch_def Let_def split_beta)

text \<open>
  C6. Every option accessor surfaces the status of its engine call: \<open>nil\<close> exactly for
  \<open>Ok\<close>, two different errors for \<open>Warning\<close> and \<open>Error\<close>, and an error for any other
  code. The three constants are pairwise different. For each accessor, the first pair is
  the status the engine returned to a call and the error of that call, the second pair
  those of any other call.
\<close>

theorem option_accessors_surface_status:
  fixes K :: "('h::len) word highs_externs"
  assumes "distinct [kHighsStatusOk K, kHighsStatusWarning K, kHighsStatusError K]"
  shows
    "status_surfaced K
       (fst (Highs_setBoolOptionValue H (obj m) (CString opt) (if b then 1 else 0)))
       (fst (SetBoolOption K H m opt b))
       (fst (Highs_setBoolOptionValue H' (obj m') (CString opt') (if b' then 1 else 0)))
       (fst (SetBoolOption K H' m' opt' b')) \<and>
     status_surfaced K
       (fst (Highs_setIntOptionValue H (obj m) (CString opt) (scast i)))
       (fst (SetIntOption K H m opt i))
       (fst (Highs_setIntOptionValue H' (obj m') (CString opt') (scast i')))
       (fst (SetIntOption K H' m' opt' i')) \<and>
     status_surfaced K
       (fst (Highs_setDoubleOptionValue H (obj m) (CString opt) x))
       (fst (SetFloat64Option K H m opt x))
       (fst (Highs_setDoubleOptionValue H' (obj m') (CString opt') x'))
       (fst (SetFloat64Option K H' m' opt' x')) \<and>
     status_surfaced K
       (fst (Highs_setStringOptionValue H (obj m) (CString opt) (CString s)))
       (fst (SetStringOption K H m opt s))
       (fst (Highs_setStringOptionValue H' (obj m') (CString opt') (CString s')))
       (fst (SetStringOption K H' m' opt' s')) \<and>
     status_surfaced K
       (fst (Highs_getBoolOptionValue H (obj m) (CString opt) 0))
       (snd (fst (GetBoolOption K H m opt)))
       (fst (Highs_getBoolOptionValue H' (obj m') (CString opt') 0))
       (snd (fst (GetBoolOption K H' m' opt'))) \<and>
     status_surfaced K
       (fst (Highs_getIntOptionValue H (obj m) (CString opt) 0))
       (snd (fst (GetIntOption K H m opt)))
       (fst (Highs_getIntOptionValue H' (obj m') (CString opt') 0))
       (snd (fst (GetIntOption K H' m' opt'))) \<and>
     status_surfaced K
       (fst (Highs_getDoubleOptionValue H (obj m) (CString opt) 0))
       (snd (fst (GetFloat64Option K H m opt)))
       (fst (Highs_getDoubleOptionValue H' (obj m') (CString opt') 0))
       (snd (fst (GetFloat64Option K H' m' opt'))) \<and>
     status_surfaced K
       (fst (Highs_getStringOptionValue H (obj m) (CString opt) (calloc 65536)))
       (snd (fst (GetStringOption K H m opt)))
       (fst (Highs_getStringOptionValue H' (obj m') (CString opt') (calloc 65536)))
       (snd (fst (GetStringOption K H' m' opt')))"
  unfolding SetBoolOption_error SetIntOption_error SetFloat64Option_error
    SetStringOption_error GetBoolOption_error GetIntOption_error GetFloat64Option_error
    GetStringOption_error
  by (intro conjI status_surfaced_switch [OF assms]) simp_all

theorem option_accessors_surface_status_witness:
  "distinct [kHighsStatusOk sample_externs, kHighsStatusWarning sample_externs,
             kHighsStatusError sample_externs] \<and>
   fst (SetBoolOption sample_externs (sample_engine 0 0 0 1 1 [] []) \<lparr>obj = ()\<rparr>
          ''output_flag'' False) = None \<and>
   fst (SetBoolOption sample_externs (sample_engine 1 0 0 1 1 [] []) \<lparr>obj = ()\<rparr>
          ''output_flag'' False) = Some (Errorf ''SetBoolOption warning'') \<and>
   fst (SetBoolOption sample_externs (sample_engine (- 1) 0 0 1 1 [] []) \<lparr>obj = ()\<rparr>
          ''output_flag'' False) = Some (Errorf ''SetBoolOption error'') \<and>
   snd (fst (GetStringOption sample_externs (sample_engine 5 0 0 1 1 [] []) \<lparr>obj = ()\<rparr>
          ''solver'')) = Some (Errorf ''GetStringOption unknown status'')"
proof -
  have h: "distinct [kHighsStatusOk sample_externs, kHighsStatusWarning sample_externs,
                     kHighsStatusError sample_externs]"
    by (simp add: sample_externs_def)
  show ?thesis
    using h option_accessors_surface_status [OF h,
        where H = "sample_engine 1 0 0 1 1 [] []" and H' = "sample_engine (- 1) 0 0 1 1 [] []"
          and m = "\<lparr>obj = ()\<rparr>" and m' = "\<lparr>obj = ()\<rparr>"
          and opt = "''output_flag''" and opt' = "''output_flag''" and b = False and b' = False]
    by (simp add: SetBoolOption_def GetStringOption_def sample_externs_def sample_engine_def
        Let_def)
qed

section \<open>Solve\<close>

lemma Solve_buffers_eq:
  "Solve_buffers nc nr =
     (if sint nc < 0 \<or> sint nr < 0 then Inl MakeSliceLenOutOfRange
      else if sint nc = 0 \<or> sint nr = 0 then Inl IndexOutOfRange
      else Inr (replicate (nat (sint nc)) 0, replicate (nat (sint nc)) 0,
                replicate (nat (sint nr)) 0, replicate (nat (sint nr)) 0))"
  by (auto simp: Solve_buffers_def makeslice_def addr0_def and_then_def)

lemma Solve_convert_eq:
  "Solve_convert soln colValue colDual rowValue rowDual =
     Inr (soln\<lparr>ColumnPrimal := colValue, RowPrimal := rowValue,
               ColumnDual := colDual, RowDual := rowDual\<rparr>)"
  by (simp add: Solve_convert_def convertSlice_map and_then_def)

lemma Solve_extract_Inl:
  assumes "Solve_buffers (scast (fst (Highs_getNumCol H (snd (Highs_getModelStatus H o1)))))
             (scast (fst (Highs_getNumRow H
                (snd (Highs_getNumCol H (snd (Highs_getModelStatus H o1))))))) = Inl p"
  shows "Solve_extract K H conv zeroStatus m soln o1 = Inl p"
  using assms by (simp add: Solve_extract_def Let_def and_then_def)

lemma Solve_extract_Inr:
  assumes "Solve_buffers (scast (fst (Highs_getNumCol H (snd (Highs_getModelStatus H o1)))))
             (scast (fst (Highs_getNumRow H
                (snd (Highs_getNumCol H (snd (Highs_getModelStatus H o1))))))) = Inr bufs"
  shows "\<exists>r. Solve_extract K H conv zeroStatus m soln o1 = Inr r"
  using assms
  by (cases bufs) (simp add: Solve_extract_def Let_def and_then_def Solve_convert_eq)

text \<open>
  C4 as amended. When \<open>Highs_run\<close> returns \<open>Warning\<close>, \<open>Solve\<close> returns the solution it
  allocated at its start, every field still at its zero value, together with the error
  \<open>model failed with a warning\<close>; nothing has been read from the engine.
\<close>

theorem Solve_warning_returns_zero_solution:
  assumes "fst (Highs_run H (obj m)) = kHighsStatusWarning K"
    and "kHighsStatusWarning K \<noteq> kHighsStatusOk K"
  shows "Solve K H conv zeroStatus m =
           Inr ((RawSolution_zero zeroStatus, Some (Errorf ''model failed with a warning'')),
                m\<lparr>obj := snd (Highs_run H (obj m))\<rparr>)"
  using assms by (simp add: Solve_def Let_def)

theorem Solve_warning_returns_zero_solution_witness:
  "fst (Highs_run (sample_engine 0 1 0 1 1 [5] [6]) (obj \<lparr>obj = ()\<rparr>))
     = kHighsStatusWarning sample_externs \<and>
   kHighsStatusWarning sample_externs \<noteq> kHighsStatusOk sample_externs \<and>
   (Solve sample_externs (sample_engine 0 1 0 1 1 [5] [6]) unat 0 \<lparr>obj = ()\<rparr>
      :: panic + (((unit, nat, unit) RawSolution \<times> error option) \<times> unit RawModel))
     = Inr ((RawSolution_zero 0, Some (Errorf ''model failed with a warning'')), \<lparr>obj = ()\<rparr>)"
proof -
  have h1: "fst (Highs_run (sample_engine 0 1 0 1 1 [5] [6]) (obj \<lparr>obj = ()\<rparr>))
              = kHighsStatusWarning sample_externs"
    by (simp add: sample_engine_def sample_externs_def)
  have h2: "kHighsStatusWarning sample_externs \<noteq> kHighsStatusOk sample_externs"
    by (simp add: sample_externs_def)
  show ?thesis
    using h1 h2 Solve_warning_returns_zero_solution [OF h1 h2, of unat "0::nat"]
    by (simp add: sample_engine_def)
qed

text \<open>
  C4 as stated fails: the engine below has a solution ready (one column, one row) and
  its run returns \<open>Warning\<close>, yet the solution \<open>Solve\<close> returns is the zero value.
\<close>

theorem Solve_warning_not_populated:
  "\<not> partially_populated (0::nat)
       (Solve sample_externs (sample_engine 0 1 0 1 1 [5] [6]) unat 0 \<lparr>obj = ()\<rparr>
          :: panic + (((unit, nat, unit) RawSolution \<times> error option) \<times> unit RawModel))"
  by (simp add: partially_populated_def Solve_def sample_externs_def sample_engine_def Let_def)

text \<open>
  What \<open>Solve\<close> does after a successful run, by the counts the engine reports (in the
  model an allocation of a non-negative length always succeeds).
\<close>

lemma Solve_after_run:
  fixes K :: "('h::len) word highs_externs"
    and H :: "('s, 'h word) Highs" and conv :: "'h word \<Rightarrow> 'ms" and zeroStatus :: 'ms
    and m :: "'s RawModel"
    and res :: "panic + ((('s, 'ms, 'bs) RawSolution \<times> error option) \<times> 's RawModel)"
  defines "res \<equiv> Solve K H conv zeroStatus m"
  assumes "LENGTH('h) \<le> 64"
    and "Highs_run H (obj m) = (kHighsStatusOk K, o1)"
    and "Highs_getModelStatus H o1 = (ms, o2)"
    and "Highs_getNumCol H o2 = (nc, o3)"
    and "Highs_getNumRow H o3 = (nr, o4)"
  shows "if 0 < sint nc \<and> 0 < sint nr then \<exists>r. res = Inr r
         else if 0 \<le> sint nc \<and> 0 \<le> sint nr then res = Inl IndexOutOfRange
         else res = Inl MakeSliceLenOutOfRange"
proof -
  let ?nc = "scast nc :: go_int" and ?nr = "scast nr :: go_int"
  have S: "res = Solve_extract K H conv zeroStatus m (RawSolution_zero zeroStatus) o1"
    using assms(3) by (simp add: res_def Solve_def Let_def)
  have B: "Solve_buffers (scast (fst (Highs_getNumCol H (snd (Highs_getModelStatus H o1)))))
             (scast (fst (Highs_getNumRow H
                (snd (Highs_getNumCol H (snd (Highs_getModelStatus H o1)))))))
           = Solve_buffers ?nc ?nr"
    using assms(4,5,6) by simp
  have nc: "sint ?nc = sint nc" and nr: "sint ?nr = sint nr"
    using assms(2) by (simp_all add: sint_scast_go_int)
  show ?thesis
  proof (cases "0 < sint nc \<and> 0 < sint nr")
    case True
    then have "\<exists>bufs. Solve_buffers ?nc ?nr = Inr bufs"
      by (simp add: Solve_buffers_eq nc nr)
    then obtain bufs where "Solve_buffers ?nc ?nr = Inr bufs" ..
    with B have "\<exists>r. res = Inr r"
      unfolding S by (intro Solve_extract_Inr) simp
    with True show ?thesis by simp
  next
    case False
    then have "Solve_buffers ?nc ?nr
                 = Inl (if 0 \<le> sint nc \<and> 0 \<le> sint nr then IndexOutOfRange
                        else MakeSliceLenOutOfRange)"
      by (auto simp: Solve_buffers_eq nc nr)
    with B have "res = Inl (if 0 \<le> sint nc \<and> 0 \<le> sint nr then IndexOutOfRange
                            else MakeSliceLenOutOfRange)"
      unfolding S by (intro Solve_extract_Inl) simp
    with False show ?thesis by simp
  qed
qed

text \<open>
  C9. After a successful run, with the column and row counts the engine reports:
  \<open>Solve\<close> panics when a count is zero, with an index out of range when neither count
  is negative; so whenever it returns, both counts are positive.
\<close>

theorem Solve_panics_on_empty_model:
  fixes K :: "('h::len) word highs_externs"
    and H :: "('s, 'h word) Highs" and conv :: "'h word \<Rightarrow> 'ms" and zeroStatus :: 'ms
    and m :: "'s RawModel"
    and res :: "panic + ((('s, 'ms, 'bs) RawSolution \<times> error option) \<times> 's RawModel)"
  defines "res \<equiv> Solve K H conv zeroStatus m"
  assumes "LENGTH('h) \<le> 64"
    and "Highs_run H (obj m) = (kHighsStatusOk K, o1)"
    and "Highs_getModelStatus H o1 = (ms, o2)"
    and "Highs_getNumCol H o2 = (nc, o3)"
    and "Highs_getNumRow H o3 = (nr, o4)"
  shows "((sint nc = 0 \<or> sint nr = 0) \<longrightarrow> (\<exists>p. res = Inl p)) \<and>
         ((sint nc = 0 \<or> sint nr = 0) \<and> 0 \<le> sint nc \<and> 0 \<le> sint nr
            \<longrightarrow> res = Inl IndexOutOfRange) \<and>
         ((\<exists>r. res = Inr r) \<longrightarrow> 0 < sint nc \<and> 0 < sint nr)"
  using Solve_after_run [OF assms(2-6), where conv = conv and zeroStatus = zeroStatus
      and ?'bs = 'bs]
  unfolding res_def by (auto split: if_splits)

theorem Solve_panics_on_empty_model_witness:
  "(Solve sample_externs (sample_engine 0 0 0 0 1 [] [6]) unat 0 \<lparr>obj = ()\<rparr>
      :: panic + (((unit, nat, unit) RawSolution \<times> error option) \<times> unit RawModel))
     = Inl IndexOutOfRange"
proof -
  have h: "LENGTH(32) \<le> 64" by simp
  have a: "Highs_run (sample_engine 0 0 0 0 1 [] [6]) (obj \<lparr>obj = ()\<rparr>)
             = (kHighsStatusOk sample_externs, ())"
    "Highs_getModelStatus (sample_engine 0 0 0 0 1 [] [6]) () = (7, ())"
    "Highs_getNumCol (sample_engine 0 0 0 0 1 [] [6]) () = (0, ())"
    "Highs_getNumRow (sample_engine 0 0 0 0 1 [] [6]) () = (1, ())"
    by (simp_all add: sample_engine_def sample_externs_def)
  show ?thesis
    using Solve_panics_on_empty_model [OF h a, where conv = unat and zeroStatus = "0::nat"
        and ?'bs = unit]
    by simp
qed

text \<open>
  \<open>Solve\<close> does return on a model with a column and a row: the engine below reports one of
  each and the vectors come back as the engine wrote them.
\<close>

lemma Solve_sample_returns:
  "(Solve sample_externs (sample_engine 0 0 0 1 2 [5] [6, 8]) unat 0 \<lparr>obj = ()\<rparr>
      :: panic + (((unit, nat, unit) RawSolution \<times> error option) \<times> unit RawModel))
     = Inr ((\<lparr>soln_obj = None, soln_Status = 7, ColumnPrimal = [5], RowPrimal = [6, 8],
              ColumnDual = [5], RowDual = [6, 8], ColumnBasis = [], RowBasis = [],
              Objective = 0\<rparr>, None), \<lparr>obj = ()\<rparr>)"
  by (simp add: Solve_def sample_externs_def sample_engine_def Let_def Solve_extract_def
      Solve_buffers_eq and_then_def written_def Solve_convert_eq RawSolution_zero_def)

section \<open>The sparse-matrix converter\<close>

lemma length_count_pass [simp]: "length (count_pass counts ks) = length counts"
  by (induction ks arbitrary: counts) auto

lemma sum_list_count_pass:
  "\<forall>k\<in>set ks. k < length counts \<Longrightarrow> sum_list (count_pass counts ks) = sum_list counts + length ks"
proof (induction ks arbitrary: counts)
  case Nil then show ?case by simp
next
  case (Cons k ks)
  then have k: "k < length counts" by simp
  have "sum_list (counts[k := counts ! k + 1]) = sum_list counts + 1"
    using k by (simp add: sum_list_update)
  with Cons show ?case by simp
qed

lemma nth_count_pass:
  "k < length counts \<Longrightarrow> count_pass counts ks ! k = counts ! k + count_list ks k"
  by (induction ks arbitrary: counts) (auto simp: nth_list_update)

lemma length_prefix_sum [simp]: "length (prefix_sum acc cs) = length cs"
  by (induction cs arbitrary: acc) auto

lemma nth_prefix_sum:
  "i < length cs \<Longrightarrow> prefix_sum acc cs ! i = acc + sum_list (take i cs)"
proof (induction cs arbitrary: acc i)
  case Nil
  then show ?case by simp
next
  case (Cons c cs)
  then show ?case by (cases i) (auto simp: add.assoc)
qed

lemma fold_max_ge_init: "(a::int) \<le> fold max xs a"
proof (induction xs arbitrary: a)
  case Nil
  show ?case by simp
next
  case (Cons y ys)
  have "a \<le> max y a" by simp
  also have "\<dots> \<le> fold max ys (max y a)" by (rule Cons.IH)
  finally show ?case by simp
qed

lemma fold_max_ge_member: "x \<in> set xs \<Longrightarrow> (x::int) \<le> fold max xs a"
proof (induction xs arbitrary: a)
  case Nil
  then show ?case by simp
next
  case (Cons y ys)
  show ?case
  proof (cases "x = y")
    case True
    have "x \<le> max y a" using True by simp
    also have "\<dots> \<le> fold max ys (max y a)" by (rule fold_max_ge_init)
    finally show ?thesis by simp
  next
    case False
    with Cons.prems have "x \<in> set ys" by simp
    then show ?thesis using Cons.IH by simp
  qed
qed

lemma key_less_dimension:
  assumes "t \<in> set nz" and "non_negative t"
  shows "nat (compressed cm t) < dimension cm nz"
proof -
  have "compressed cm t \<le> max_index (map (compressed cm) nz)"
    unfolding max_index_def using assms(1) by (intro fold_max_ge_member) simp
  moreover have "0 \<le> compressed cm t"
    using assms(2) by (simp add: non_negative_def compressed_def)
  ultimately show ?thesis by (simp add: dimension_def)
qed

lemma length_filter_less_Suc:
  "length (filter (\<lambda>x. f x < Suc i) xs)
     = length (filter (\<lambda>x. f x < i) xs) + length (filter (\<lambda>x. (f x :: nat) = i) xs)"
  by (induction xs) auto

lemma sum_list_take_counts:
  assumes "\<forall>k<length counts. counts ! k = length (filter (\<lambda>x. f x = k) xs)"
    and "i \<le> length counts"
  shows "sum_list (take i counts) = length (filter (\<lambda>x. (f x :: nat) < i) xs)"
  using assms(2)
proof (induction i)
  case 0
  show ?case by simp
next
  case (Suc i)
  then have i: "i < length counts" by simp
  have "take (Suc i) counts = take i counts @ [counts ! i]"
    using i by (simp add: take_Suc_conv_app_nth)
  then show ?case
    using Suc i assms(1) by (simp add: length_filter_less_Suc)
qed

lemma place_nth:
  fixes cm :: bool and ts :: "'v Nonzero list"
  assumes keys: "\<forall>t\<in>set ts. nat (compressed cm t) < length cursor"
    and len: "length index = n" "length val = n"
    and room: "\<forall>k<length cursor. bnd ! k \<le> cursor ! k \<and>
                 cursor ! k + length (filter (\<lambda>t. nat (compressed cm t) = k) ts) \<le> bnd ! Suc k"
    and bnd: "sorted bnd" "length bnd = Suc (length cursor)" "bnd ! length cursor \<le> n"
  shows "length (fst (place cm cursor index val ts)) = n \<and>
         length (snd (place cm cursor index val ts)) = n \<and>
         (\<forall>k<length cursor. \<forall>j<length (filter (\<lambda>t. nat (compressed cm t) = k) ts).
            fst (place cm cursor index val ts) ! (cursor ! k + j)
              = free cm (filter (\<lambda>t. nat (compressed cm t) = k) ts ! j) \<and>
            snd (place cm cursor index val ts) ! (cursor ! k + j)
              = Val (filter (\<lambda>t. nat (compressed cm t) = k) ts ! j)) \<and>
         (\<forall>p<n. (\<forall>k<length cursor. \<not> (cursor ! k \<le> p \<and>
                     p < cursor ! k + length (filter (\<lambda>t. nat (compressed cm t) = k) ts)))
             \<longrightarrow> fst (place cm cursor index val ts) ! p = index ! p \<and>
                 snd (place cm cursor index val ts) ! p = val ! p)"
  using keys len room bnd
proof (induction ts arbitrary: cursor index val)
  case Nil
  then show ?case by simp
next
  case (Cons t ts)
  define key where "key = (\<lambda>t::'v Nonzero. nat (compressed cm t))"
  define k0 where "k0 = key t"
  define pos where "pos = cursor ! k0"
  define cursor' where "cursor' = cursor[k0 := pos + 1]"
  define index1 where "index1 = index[pos := free cm t]"
  define val1 where "val1 = val[pos := Val t]"
  define cnt where "cnt = (\<lambda>k ts. length (filter (\<lambda>t. key t = k) ts))"
  have dimlen: "length bnd = Suc (length cursor)" using Cons.prems(6) by simp
  have k0: "k0 < length cursor" using Cons.prems(1) by (simp add: k0_def key_def)
  have room: "\<And>k. k < length cursor \<Longrightarrow> bnd ! k \<le> cursor ! k \<and> cursor ! k + cnt k (t # ts) \<le> bnd ! Suc k"
    using Cons.prems(4) by (simp add: cnt_def key_def)
  have cnt_k0: "cnt k0 (t # ts) = Suc (cnt k0 ts)" by (simp add: cnt_def k0_def)
  have cnt_other: "\<And>k. k \<noteq> k0 \<Longrightarrow> cnt k (t # ts) = cnt k ts" by (auto simp: cnt_def k0_def)
  have filt_k0: "filter (\<lambda>t. key t = k0) (t # ts) = t # filter (\<lambda>t. key t = k0) ts"
    by (simp add: k0_def)
  have filt_other: "\<And>k. k \<noteq> k0 \<Longrightarrow> filter (\<lambda>t. key t = k) (t # ts) = filter (\<lambda>t. key t = k) ts"
    by (auto simp: k0_def)
  have mono: "\<And>i j. i \<le> j \<Longrightarrow> j \<le> length cursor \<Longrightarrow> bnd ! i \<le> bnd ! j"
    using Cons.prems(5) dimlen by (simp add: sorted_nth_mono)
  have pos_lt: "pos < n"
  proof -
    have "pos + 1 \<le> bnd ! Suc k0" using room[OF k0] cnt_k0 by (simp add: pos_def)
    also have "\<dots> \<le> bnd ! length cursor" using k0 by (intro mono) auto
    also have "\<dots> \<le> n" by (rule Cons.prems(7))
    finally show ?thesis by simp
  qed
  have step: "place cm cursor index val (t # ts) = place cm cursor' index1 val1 ts"
    by (simp add: Let_def cursor'_def index1_def val1_def pos_def k0_def key_def)
  have c'_k0: "cursor' ! k0 = pos + 1" using k0 by (simp add: cursor'_def)
  have c'_other: "\<And>k. k \<noteq> k0 \<Longrightarrow> cursor' ! k = cursor ! k" by (simp add: cursor'_def)
  have len': "length cursor' = length cursor" by (simp add: cursor'_def)
  have room': "\<forall>k<length cursor'. bnd ! k \<le> cursor' ! k \<and>
                 cursor' ! k + length (filter (\<lambda>t. nat (compressed cm t) = k) ts) \<le> bnd ! Suc k"
  proof (intro allI impI)
    fix k assume k: "k < length cursor'"
    show "bnd ! k \<le> cursor' ! k \<and>
          cursor' ! k + length (filter (\<lambda>t. nat (compressed cm t) = k) ts) \<le> bnd ! Suc k"
    proof (cases "k = k0")
      case True
      then show ?thesis using room[OF k0] cnt_k0 c'_k0
        by (simp add: pos_def cnt_def key_def)
    next
      case False
      then show ?thesis using room[of k] k len' cnt_other[OF False] c'_other[OF False]
        by (simp add: cnt_def key_def)
    qed
  qed
  have IH: "length (fst (place cm cursor' index1 val1 ts)) = n \<and>
         length (snd (place cm cursor' index1 val1 ts)) = n \<and>
         (\<forall>k<length cursor'. \<forall>j<length (filter (\<lambda>t. nat (compressed cm t) = k) ts).
            fst (place cm cursor' index1 val1 ts) ! (cursor' ! k + j)
              = free cm (filter (\<lambda>t. nat (compressed cm t) = k) ts ! j) \<and>
            snd (place cm cursor' index1 val1 ts) ! (cursor' ! k + j)
              = Val (filter (\<lambda>t. nat (compressed cm t) = k) ts ! j)) \<and>
         (\<forall>p<n. (\<forall>k<length cursor'. \<not> (cursor' ! k \<le> p \<and>
                     p < cursor' ! k + length (filter (\<lambda>t. nat (compressed cm t) = k) ts)))
             \<longrightarrow> fst (place cm cursor' index1 val1 ts) ! p = index1 ! p \<and>
                 snd (place cm cursor' index1 val1 ts) ! p = val1 ! p)"
  proof (rule Cons.IH)
    show "\<forall>t\<in>set ts. nat (compressed cm t) < length cursor'"
      using Cons.prems(1) len' by simp
    show "length index1 = n" using Cons.prems(2) by (simp add: index1_def)
    show "length val1 = n" using Cons.prems(3) by (simp add: val1_def)
    show "\<forall>k<length cursor'. bnd ! k \<le> cursor' ! k \<and>
                 cursor' ! k + length (filter (\<lambda>t. nat (compressed cm t) = k) ts) \<le> bnd ! Suc k"
      by (rule room')
    show "sorted bnd" by (rule Cons.prems(5))
    show "length bnd = Suc (length cursor')" using dimlen len' by simp
    show "bnd ! length cursor' \<le> n" using Cons.prems(7) len' by simp
  qed
  let ?I = "fst (place cm cursor' index1 val1 ts)"
  let ?V = "snd (place cm cursor' index1 val1 ts)"
  have IH_region: "\<And>k j. k < length cursor \<Longrightarrow> j < cnt k ts \<Longrightarrow>
      ?I ! (cursor' ! k + j) = free cm (filter (\<lambda>t. key t = k) ts ! j) \<and>
      ?V ! (cursor' ! k + j) = Val (filter (\<lambda>t. key t = k) ts ! j)"
    using IH len' by (simp add: cnt_def key_def)
  have IH_keep: "\<And>p. p < n \<Longrightarrow>
      (\<And>k. k < length cursor \<Longrightarrow> \<not> (cursor' ! k \<le> p \<and> p < cursor' ! k + cnt k ts)) \<Longrightarrow>
      ?I ! p = index1 ! p \<and> ?V ! p = val1 ! p"
    using IH len' by (simp add: cnt_def key_def)
  \<comment> \<open>the slot just written lies outside every region still to be filled\<close>
  have pos_free: "\<not> (cursor' ! k \<le> pos \<and> pos < cursor' ! k + cnt k ts)" if k: "k < length cursor" for k
  proof (cases "k = k0")
    case True
    then show ?thesis using c'_k0 by simp
  next
    case False
    show ?thesis
    proof (cases "k < k0")
      case True
      have "cursor ! k + cnt k ts \<le> bnd ! Suc k" using room[OF k] cnt_other[OF False] by simp
      also have "\<dots> \<le> bnd ! k0" using True k0 by (intro mono) auto
      also have "\<dots> \<le> pos" using room[OF k0] by (simp add: pos_def)
      finally show ?thesis using c'_other[OF False] by simp
    next
      case False2: False
      with False have lt: "k0 < k" by simp
      have "pos + 1 \<le> bnd ! Suc k0" using room[OF k0] cnt_k0 by (simp add: pos_def)
      also have "\<dots> \<le> bnd ! k" using lt k by (intro mono) auto
      also have "\<dots> \<le> cursor ! k" using room[OF k] by simp
      finally show ?thesis using c'_other[OF False] by simp
    qed
  qed
  have at_pos: "?I ! pos = free cm t \<and> ?V ! pos = Val t"
  proof -
    have "?I ! pos = index1 ! pos \<and> ?V ! pos = val1 ! pos"
      using pos_lt pos_free by (intro IH_keep) auto
    then show ?thesis using pos_lt Cons.prems(2,3) by (simp add: index1_def val1_def)
  qed
  have region: "?I ! (cursor ! k + j) = free cm (filter (\<lambda>t. key t = k) (t # ts) ! j) \<and>
                ?V ! (cursor ! k + j) = Val (filter (\<lambda>t. key t = k) (t # ts) ! j)"
    if k: "k < length cursor" and j: "j < cnt k (t # ts)" for k j
  proof (cases "k = k0")
    case True
    show ?thesis
    proof (cases j)
      case 0
      then show ?thesis using at_pos True filt_k0 by (simp add: pos_def)
    next
      case (Suc j')
      then have "j' < cnt k0 ts" using j True cnt_k0 by simp
      from IH_region[OF k0 this] show ?thesis
        using True Suc filt_k0 c'_k0 by (simp add: pos_def)
    qed
  next
    case False
    then show ?thesis
      using IH_region[OF k, of j] j cnt_other[OF False] filt_other[OF False] c'_other[OF False]
      by simp
  qed
  have keep: "?I ! p = index ! p \<and> ?V ! p = val ! p"
    if p: "p < n"
      and out: "\<And>k. k < length cursor \<Longrightarrow> \<not> (cursor ! k \<le> p \<and> p < cursor ! k + cnt k (t # ts))"
    for p
  proof -
    have ne: "p \<noteq> pos" using out[OF k0] cnt_k0 by (auto simp: pos_def)
    have "\<not> (cursor' ! k \<le> p \<and> p < cursor' ! k + cnt k ts)" if k: "k < length cursor" for k
    proof (cases "k = k0")
      case True
      then show ?thesis using out[OF k0] cnt_k0 c'_k0 by (auto simp: pos_def)
    next
      case False
      then show ?thesis using out[OF k] cnt_other[OF False] c'_other[OF False] by simp
    qed
    then have "?I ! p = index1 ! p \<and> ?V ! p = val1 ! p" using p by (intro IH_keep) auto
    then show ?thesis using ne by (simp add: index1_def val1_def)
  qed
  show ?case
    unfolding step
    using IH region keep by (simp add: cnt_def key_def)
qed

lemma count_list_map_filter:
  "count_list (map f xs) k = length (filter (\<lambda>x. f x = k) xs)"
  by (induction xs) auto


text \<open>
  The offsets the converter builds, followed by the number of triples: the bounds of
  the regions the cursors walk.
\<close>

lemma offsets:
  fixes nz :: "'v Nonzero list" and cm :: bool
  assumes ok: "list_all non_negative nz"
  defines "dim \<equiv> dimension cm nz"
  defines "counts \<equiv> count_pass (replicate dim 0) (map (\<lambda>t. nat (compressed cm t)) nz)"
  defines "start \<equiv> prefix_sum 0 counts"
  defines "bnd \<equiv> start @ [length nz]"
  shows "length start = dim"
    and "\<forall>t\<in>set nz. nat (compressed cm t) < dim"
    and "\<forall>i\<le>dim. bnd ! i = length (filter (\<lambda>t. nat (compressed cm t) < i) nz)"
    and "\<forall>k<dim. bnd ! Suc k
           = bnd ! k + length (filter (\<lambda>t. nat (compressed cm t) = k) nz)"
    and "sorted bnd"
proof -
  let ?key = "\<lambda>t::'v Nonzero. nat (compressed cm t)"
  have lc: "length counts = dim" by (simp add: counts_def)
  show ls: "length start = dim" by (simp add: start_def lc)
  show keys: "\<forall>t\<in>set nz. ?key t < dim"
    using ok by (auto simp: list_all_iff dim_def intro: key_less_dimension)
  have cnt: "\<forall>k<length counts. counts ! k = length (filter (\<lambda>t. ?key t = k) nz)"
    by (simp add: counts_def nth_count_pass count_list_map_filter)
  have all: "filter (\<lambda>t. ?key t < dim) nz = nz"
    using keys by (simp add: filter_id_conv)
  show B: "\<forall>i\<le>dim. bnd ! i = length (filter (\<lambda>t. ?key t < i) nz)"
  proof (intro allI impI)
    fix i assume i: "i \<le> dim"
    show "bnd ! i = length (filter (\<lambda>t. ?key t < i) nz)"
    proof (cases "i < dim")
      case True
      then have "bnd ! i = sum_list (take i counts)"
        using ls lc by (simp add: bnd_def nth_append start_def nth_prefix_sum)
      also have "\<dots> = length (filter (\<lambda>t. ?key t < i) nz)"
        using cnt i lc by (intro sum_list_take_counts) simp_all
      finally show ?thesis .
    next
      case False
      with i have "i = dim" by simp
      then show ?thesis using ls all by (simp add: bnd_def nth_append)
    qed
  qed
  show S: "\<forall>k<dim. bnd ! Suc k = bnd ! k + length (filter (\<lambda>t. ?key t = k) nz)"
    using B by (simp add: length_filter_less_Suc)
  have "bnd ! i \<le> bnd ! Suc i" if "Suc i < length bnd" for i
    using that S ls by (simp add: bnd_def)
  then show "sorted bnd" by (simp add: sorted_iff_nth_Suc)
qed

lemma nonzerosToCSR_Inr:
  assumes "list_all non_negative nz"
  shows "nonzerosToCSR nz cm =
    Inr (prefix_sum 0 (count_pass (replicate (dimension cm nz) 0)
                         (map (\<lambda>t. nat (compressed cm t)) nz)),
         place cm (prefix_sum 0 (count_pass (replicate (dimension cm nz) 0)
                         (map (\<lambda>t. nat (compressed cm t)) nz)))
           (replicate (length nz) 0) (replicate (length nz) 0) nz)"
  using assms by (simp add: nonzerosToCSR_def Let_def split: prod.splits)

lemma nonzerosToCSR_Inr_non_negative:
  "nonzerosToCSR nz cm = Inr r \<Longrightarrow> list_all non_negative nz"
  by (simp add: nonzerosToCSR_def split: if_splits)

lemma key_less_iff:
  "non_negative t \<Longrightarrow> nat (compressed cm t) < i \<longleftrightarrow> compressed cm t < int i"
  by (auto simp: non_negative_def compressed_def)

lemma key_eq_iff:
  "non_negative t \<Longrightarrow> nat (compressed cm t) = i \<longleftrightarrow> compressed cm t = int i"
  by (auto simp: non_negative_def compressed_def)

lemma start_props:
  fixes nz :: "'v Nonzero list" and cm :: bool
  assumes ok: "list_all non_negative nz"
  defines "start \<equiv> prefix_sum 0 (count_pass (replicate (dimension cm nz) 0)
                       (map (\<lambda>t. nat (compressed cm t)) nz))"
  shows "length start = dimension cm nz"
    and "sorted start"
    and "\<forall>i<length start. start ! i = length (filter (\<lambda>t. compressed cm t < int i) nz)"
proof -
  note O = offsets [OF ok, of cm, folded start_def]
  show len: "length start = dimension cm nz" by (rule O(1))
  have "sorted (start @ [length nz])" by (rule O(5))
  then show "sorted start" by (simp add: sorted_append)
  show "\<forall>i<length start. start ! i = length (filter (\<lambda>t. compressed cm t < int i) nz)"
  proof (intro allI impI)
    fix i assume i: "i < length start"
    have "(nat (compressed cm t) < i) = (compressed cm t < int i)" if "t \<in> set nz" for t
      using that ok key_less_iff [of t cm i] by (simp add: list_all_iff)
    then have "filter (\<lambda>t. nat (compressed cm t) < i) nz
                 = filter (\<lambda>t. compressed cm t < int i) nz"
      by (intro filter_cong) auto
    moreover have "(start @ [length nz]) ! i
                     = length (filter (\<lambda>t. nat (compressed cm t) < i) nz)"
      using O(3) i len by simp
    ultimately show "start ! i = length (filter (\<lambda>t. compressed cm t < int i) nz)"
      using i by (simp add: nth_append)
  qed
qed

lemma segments_props:
  fixes nz :: "('v::zero) Nonzero list" and cm :: bool
  assumes ok: "list_all non_negative nz"
  defines "start \<equiv> prefix_sum 0 (count_pass (replicate (dimension cm nz) 0)
                       (map (\<lambda>t. nat (compressed cm t)) nz))"
  defines "out \<equiv> place cm start (replicate (length nz) 0) (replicate (length nz) 0) nz"
  shows "length (fst out) = length nz" and "length (snd out) = length nz"
    and "\<forall>i<dimension cm nz.
           slot_segment start (fst out) i
             = Inr (map (free cm) (filter (\<lambda>t. compressed cm t = int i) nz)) \<and>
           slot_segment start (snd out) i
             = Inr (map Val (filter (\<lambda>t. compressed cm t = int i) nz))"
proof -
  let ?g = "\<lambda>k. filter (\<lambda>t. nat (compressed cm t) = k) nz"
  let ?bnd = "start @ [length nz]"
  note O = offsets [OF ok, of cm, folded start_def]
  have len: "length start = dimension cm nz" by (rule O(1))
  have P: "length (fst out) = length nz \<and> length (snd out) = length nz \<and>
         (\<forall>k<length start. \<forall>j<length (?g k).
            fst out ! (start ! k + j) = free cm (?g k ! j) \<and>
            snd out ! (start ! k + j) = Val (?g k ! j)) \<and>
         (\<forall>p<length nz. (\<forall>k<length start. \<not> (start ! k \<le> p \<and>
                     p < start ! k + length (?g k)))
             \<longrightarrow> fst out ! p = replicate (length nz) 0 ! p \<and>
                 snd out ! p = replicate (length nz) 0 ! p)"
    unfolding out_def
  proof (rule place_nth [where bnd = ?bnd])
    show "\<forall>t\<in>set nz. nat (compressed cm t) < length start"
      using O(2) len by simp
    show "\<forall>k<length start. ?bnd ! k \<le> start ! k \<and>
            start ! k + length (?g k) \<le> ?bnd ! Suc k"
    proof (intro allI impI)
      fix k assume k: "k < length start"
      then have "?bnd ! Suc k = ?bnd ! k + length (?g k)" using O(4) len by simp
      then show "?bnd ! k \<le> start ! k \<and> start ! k + length (?g k) \<le> ?bnd ! Suc k"
        using k by (simp add: nth_append)
    qed
    show "sorted ?bnd" by (rule O(5))
    show "length ?bnd = Suc (length start)" by simp
    show "?bnd ! length start \<le> length nz" by simp
  qed simp_all
  show li: "length (fst out) = length nz" and lv: "length (snd out) = length nz"
    using P by simp_all
  show "\<forall>i<dimension cm nz.
           slot_segment start (fst out) i
             = Inr (map (free cm) (filter (\<lambda>t. compressed cm t = int i) nz)) \<and>
           slot_segment start (snd out) i
             = Inr (map Val (filter (\<lambda>t. compressed cm t = int i) nz))"
  proof (intro allI impI)
    fix i assume "i < dimension cm nz"
    then have i: "i < length start" using len by simp
    define hi where "hi = (if Suc i < length start then start ! Suc i else length nz)"
    have hi_bnd: "hi = ?bnd ! Suc i"
      using i by (auto simp: hi_def nth_append)
    have "(nat (compressed cm t) = i) = (compressed cm t = int i)" if "t \<in> set nz" for t
      using that ok key_eq_iff [of t cm i] by (simp add: list_all_iff)
    then have geq: "?g i = filter (\<lambda>t. compressed cm t = int i) nz"
      by (intro filter_cong) auto
    have hi: "hi = start ! i + length (?g i)"
      using O(4) i len hi_bnd by (simp add: nth_append)
    have "?bnd ! Suc i \<le> ?bnd ! length start"
      using O(5) i by (intro sorted_nth_mono) auto
    then have hi_le: "hi \<le> length nz" using hi_bnd by simp
    have reg: "\<And>j. j < length (?g i) \<Longrightarrow>
        fst out ! (start ! i + j) = free cm (?g i ! j) \<and>
        snd out ! (start ! i + j) = Val (?g i ! j)"
      using P i by simp
    have "take (length (?g i)) (drop (start ! i) (fst out)) = map (free cm) (?g i)"
      using hi hi_le li reg by (intro nth_equalityI) auto
    moreover have "slot_segment start (fst out) i = slice (fst out) (start ! i) hi"
      using i li by (simp add: slot_segment_def hi_def)
    ultimately have A: "slot_segment start (fst out) i
                    = Inr (map (free cm) (filter (\<lambda>t. compressed cm t = int i) nz))"
      using hi hi_le li geq by (simp add: slice_def)
    have "take (length (?g i)) (drop (start ! i) (snd out)) = map Val (?g i)"
      using hi hi_le lv reg by (intro nth_equalityI) auto
    moreover have "slot_segment start (snd out) i = slice (snd out) (start ! i) hi"
      using i lv by (simp add: slot_segment_def hi_def)
    ultimately have B: "slot_segment start (snd out) i
                    = Inr (map Val (filter (\<lambda>t. compressed cm t = int i) nz))"
      using hi hi_le lv geq by (simp add: slice_def)
    from A B show "slot_segment start (fst out) i
             = Inr (map (free cm) (filter (\<lambda>t. compressed cm t = int i) nz)) \<and>
           slot_segment start (snd out) i
             = Inr (map Val (filter (\<lambda>t. compressed cm t = int i) nz))" ..
  qed
qed

text \<open>The converter passes the repository's test.\<close>

lemma TestMakeSparseMatrix_passes: "TestMakeSparseMatrix"
  by (simp add: TestMakeSparseMatrix_def nonzerosToCSR_def TestMakeSparseMatrix_CoeffMatrix_def
      non_negative_def dimension_def max_index_def compressed_def free_def Let_def
      numeral_3_eq_3)

text \<open>
  C1 as amended. The \<open>start\<close> array the converter returns has one offset per slot of the
  compressed axis: its length is the inferred dimension (one plus the largest index on
  that axis), it is non-decreasing, it begins with \<open>0\<close>, and its entry \<open>i\<close> is the number of
  triples in the slots before \<open>i\<close>, so no entry exceeds the number of triples. The
  converter returns its arrays for every triple list without a negative index.
\<close>

theorem nonzerosToCSR_start_offsets:
  fixes nz :: "('v::zero) Nonzero list"
  shows "(nonzerosToCSR nz colMajor = Inr (start, index, val) \<longrightarrow>
            length start = dimension colMajor nz \<and>
            sorted start \<and>
            (start \<noteq> [] \<longrightarrow> start ! 0 = 0) \<and>
            (\<forall>i<length start.
               start ! i = length (filter (\<lambda>t. compressed colMajor t < int i) nz) \<and>
               start ! i \<le> length nz)) \<and>
         (list_all non_negative nz \<longrightarrow>
            (\<exists>start index val. nonzerosToCSR nz colMajor = Inr (start, index, val)))"
proof -
  have A: "length start = dimension colMajor nz \<and>
           sorted start \<and>
           (start \<noteq> [] \<longrightarrow> start ! 0 = 0) \<and>
           (\<forall>i<length start.
              start ! i = length (filter (\<lambda>t. compressed colMajor t < int i) nz) \<and>
              start ! i \<le> length nz)"
    if r: "nonzerosToCSR nz colMajor = Inr (start, index, val)"
  proof -
    from r have ok: "list_all non_negative nz" by (rule nonzerosToCSR_Inr_non_negative)
    have s: "start = prefix_sum 0 (count_pass (replicate (dimension colMajor nz) 0)
                       (map (\<lambda>t. nat (compressed colMajor t)) nz))"
      using r nonzerosToCSR_Inr [OF ok, of colMajor] by simp
    note P = start_props [OF ok, of colMajor, folded s]
    have c: "\<forall>i<length start.
               start ! i = length (filter (\<lambda>t. compressed colMajor t < int i) nz)"
      by (rule P(3))
    have z: "start ! 0 = 0" if "start \<noteq> []"
    proof -
      have "filter (\<lambda>t. compressed colMajor t < int 0) nz = []"
        using ok by (auto simp: list_all_iff non_negative_def compressed_def filter_empty_conv)
      then show ?thesis using c that by simp
    qed
    have "\<forall>i<length start. start ! i \<le> length nz"
      using c by simp
    with P(1,2) c z show ?thesis by blast
  qed
  have B: "\<exists>start index val. nonzerosToCSR nz colMajor = Inr (start, index, val)"
    if "list_all non_negative nz"
    using nonzerosToCSR_Inr [OF that, of colMajor]
    by (cases "place colMajor
                 (prefix_sum 0 (count_pass (replicate (dimension colMajor nz) 0)
                    (map (\<lambda>t. nat (compressed colMajor t)) nz)))
                 (replicate (length nz) 0) (replicate (length nz) (0::'v)) nz") simp
  show ?thesis using A B by blast
qed

theorem nonzerosToCSR_start_offsets_witness:
  "list_all non_negative TestMakeSparseMatrix_CoeffMatrix \<and>
   (\<exists>start index val.
      nonzerosToCSR TestMakeSparseMatrix_CoeffMatrix False = Inr (start, index, val) \<and>
      length start = 3 \<and> sorted start \<and> start ! 0 = 0 \<and> start ! 2 = 3)"
proof -
  have h: "list_all non_negative TestMakeSparseMatrix_CoeffMatrix"
    by (simp add: TestMakeSparseMatrix_CoeffMatrix_def non_negative_def)
  have d: "dimension False TestMakeSparseMatrix_CoeffMatrix = 3"
    by (simp add: TestMakeSparseMatrix_CoeffMatrix_def dimension_def max_index_def
        compressed_def)
  from h nonzerosToCSR_start_offsets [of TestMakeSparseMatrix_CoeffMatrix False]
  obtain start index val where
    r: "nonzerosToCSR TestMakeSparseMatrix_CoeffMatrix False = Inr (start, index, val)"
    by blast
  from r nonzerosToCSR_start_offsets [of TestMakeSparseMatrix_CoeffMatrix False start index val]
  have P: "length start = dimension False TestMakeSparseMatrix_CoeffMatrix \<and>
      sorted start \<and> (start \<noteq> [] \<longrightarrow> start ! 0 = 0) \<and>
      (\<forall>i<length start.
         start ! i = length (filter (\<lambda>t. compressed False t < int i)
                               TestMakeSparseMatrix_CoeffMatrix) \<and>
         start ! i \<le> length TestMakeSparseMatrix_CoeffMatrix)"
    by blast
  then have p: "length start = 3" "sorted start" "start \<noteq> [] \<longrightarrow> start ! 0 = 0"
    "\<forall>i<length start.
       start ! i = length (filter (\<lambda>t. compressed False t < int i)
                             TestMakeSparseMatrix_CoeffMatrix) \<and>
       start ! i \<le> length TestMakeSparseMatrix_CoeffMatrix"
    unfolding d by blast+
  from p(1,3) have "start ! 0 = 0" by auto
  moreover from p(1,4) have "start ! 2 = 3"
    by (simp add: TestMakeSparseMatrix_CoeffMatrix_def compressed_def)
  ultimately show ?thesis using h r p(1,2) by blast
qed

text \<open>
  C1 as stated fails: on the three-row matrix of \<open>TestMakeSparseMatrix\<close> the converter
  returns the \<open>start\<close> the test expects, \<open>[0, 1, 3]\<close>, which has three entries and no
  entry for the five triples.
\<close>

theorem nonzerosToCSR_start_without_total:
  "\<not> (case nonzerosToCSR TestMakeSparseMatrix_CoeffMatrix False of
        Inl err \<Rightarrow> False
      | Inr r \<Rightarrow> start_with_total 3 5 (fst r))"
  using TestMakeSparseMatrix_passes
  by (auto simp: TestMakeSparseMatrix_def start_with_total_def split: sum.splits)

text \<open>
  C2 as amended. Reading the converter's arrays back slot by slot, where the segment of
  slot \<open>i\<close> runs from \<open>start[i]\<close> to \<open>start[i+1]\<close> and the segment of the last slot to the
  end of the array, gives the free-axis indices and the values of the triples of slot
  \<open>i\<close>, in the order in which the triples were supplied. The converter returns its arrays
  for every triple list without a negative index.
\<close>

theorem nonzerosToCSR_slot_segments:
  fixes nz :: "('v::zero) Nonzero list"
  shows "(nonzerosToCSR nz colMajor = Inr (start, index, val) \<longrightarrow>
            length index = length nz \<and> length val = length nz \<and>
            (\<forall>i<dimension colMajor nz.
               slot_segment start index i
                 = Inr (map (free colMajor)
                         (filter (\<lambda>t. compressed colMajor t = int i) nz)) \<and>
               slot_segment start val i
                 = Inr (map Val (filter (\<lambda>t. compressed colMajor t = int i) nz)))) \<and>
         (list_all non_negative nz \<longrightarrow>
            (\<exists>start index val. nonzerosToCSR nz colMajor = Inr (start, index, val)))"
proof -
  have A: "length index = length nz \<and> length val = length nz \<and>
           (\<forall>i<dimension colMajor nz.
              slot_segment start index i
                = Inr (map (free colMajor)
                        (filter (\<lambda>t. compressed colMajor t = int i) nz)) \<and>
              slot_segment start val i
                = Inr (map Val (filter (\<lambda>t. compressed colMajor t = int i) nz)))"
    if r: "nonzerosToCSR nz colMajor = Inr (start, index, val)"
  proof -
    from r have ok: "list_all non_negative nz" by (rule nonzerosToCSR_Inr_non_negative)
    let ?start = "prefix_sum 0 (count_pass (replicate (dimension colMajor nz) 0)
                    (map (\<lambda>t. nat (compressed colMajor t)) nz))"
    let ?out = "place colMajor ?start (replicate (length nz) 0)
                  (replicate (length nz) (0::'v)) nz"
    have "Inr (start, index, val) = (Inr (?start, ?out) :: failure + _)"
      by (rule trans [OF r [symmetric] nonzerosToCSR_Inr [OF ok]])
    then have e: "start = ?start" "index = fst ?out" "val = snd ?out"
      by (metis Inr_inject fst_conv snd_conv)+
    show ?thesis
      unfolding e using segments_props [OF ok, of colMajor] by blast
  qed
  have B: "\<exists>start index val. nonzerosToCSR nz colMajor = Inr (start, index, val)"
    if "list_all non_negative nz"
    using nonzerosToCSR_Inr [OF that, of colMajor]
    by (cases "place colMajor
                 (prefix_sum 0 (count_pass (replicate (dimension colMajor nz) 0)
                    (map (\<lambda>t. nat (compressed colMajor t)) nz)))
                 (replicate (length nz) 0) (replicate (length nz) (0::'v)) nz") simp
  show ?thesis using A B by blast
qed

text \<open>
  An instance with the triples out of order: the last row comes first and its columns
  are supplied as \<open>1\<close>, then \<open>0\<close>; row \<open>1\<close> is empty. The segment of the last row keeps the
  order of supply.
\<close>

theorem nonzerosToCSR_slot_segments_witness:
  "list_all non_negative
     [\<lparr>Row = 2, Col = 1, Val = 0x4008000000000000 :: float64\<rparr>,
      \<lparr>Row = 0, Col = 1, Val = 0x3FF0000000000000\<rparr>,
      \<lparr>Row = 2, Col = 0, Val = 0x4000000000000000\<rparr>] \<and>
   (\<exists>start index val.
      nonzerosToCSR
        [\<lparr>Row = 2, Col = 1, Val = 0x4008000000000000 :: float64\<rparr>,
         \<lparr>Row = 0, Col = 1, Val = 0x3FF0000000000000\<rparr>,
         \<lparr>Row = 2, Col = 0, Val = 0x4000000000000000\<rparr>] False = Inr (start, index, val) \<and>
      slot_segment start index 0 = Inr [1] \<and>
      slot_segment start index 1 = Inr [] \<and>
      slot_segment start index 2 = Inr [1, 0] \<and>
      slot_segment start val 2 = Inr [0x4008000000000000, 0x4000000000000000])"
proof -
  define nz where "nz = [\<lparr>Row = 2, Col = 1, Val = 0x4008000000000000 :: float64\<rparr>,
      \<lparr>Row = 0, Col = 1, Val = 0x3FF0000000000000\<rparr>,
      \<lparr>Row = 2, Col = 0, Val = 0x4000000000000000\<rparr>]"
  have h: "list_all non_negative nz"
    by (simp add: nz_def non_negative_def)
  have d: "dimension False nz = 3"
    by (simp add: nz_def dimension_def max_index_def compressed_def)
  from h nonzerosToCSR_slot_segments [of nz False]
  obtain start index val where r: "nonzerosToCSR nz False = Inr (start, index, val)"
    by blast
  from r nonzerosToCSR_slot_segments [of nz False start index val]
  have s: "\<forall>i<3. slot_segment start index i
                = Inr (map (free False) (filter (\<lambda>t. compressed False t = int i) nz)) \<and>
              slot_segment start val i
                = Inr (map Val (filter (\<lambda>t. compressed False t = int i) nz))"
    by (simp add: d)
  have "slot_segment start index 0 = Inr [1]"
    "slot_segment start index 1 = Inr []"
    "slot_segment start index 2 = Inr [1, 0]"
    "slot_segment start val 2 = Inr [0x4008000000000000, 0x4000000000000000]"
    using s [rule_format, of 0] s [rule_format, of 1] s [rule_format, of 2]
    by (simp_all add: nz_def compressed_def free_def)
  with h r show ?thesis unfolding nz_def by blast
qed

text \<open>
  C2 as stated fails for the last row: on the matrix of \<open>TestMakeSparseMatrix\<close> row \<open>2\<close>
  holds the columns \<open>0\<close> and \<open>1\<close>, but \<open>start\<close> has no entry \<open>start[3]\<close>, so
  \<open>index[start[2]:start[3]]\<close> cannot be read.
\<close>

theorem last_segment_has_no_end_offset:
  "\<not> (case nonzerosToCSR TestMakeSparseMatrix_CoeffMatrix False of
        Inl err \<Rightarrow> False
      | Inr r \<Rightarrow> segment (fst r) (fst (snd r)) 2 = Inr [0, 1])"
  using TestMakeSparseMatrix_passes
  by (auto simp: TestMakeSparseMatrix_def segment_def split: sum.splits)




section \<open>The solution translator\<close>

text \<open>
  C7. A code that the table does not map translates to \<open>Other\<close>, not to \<open>Optimal\<close>; and
  \<open>Optimal\<close> is the translation only of a code that the table maps to it.
\<close>

theorem unmapped_code_is_Other:
  "(code \<notin> fst ` set table \<longrightarrow>
      convertHighsModelStatus table code = Other \<and>
      convertHighsModelStatus table code \<noteq> Optimal) \<and>
   (convertHighsModelStatus table code = Optimal \<longrightarrow> (code, Optimal) \<in> set table)"
proof (intro conjI impI)
  assume "code \<notin> fst ` set table"
  then have "map_of table code = None" by (simp add: map_of_eq_None_iff)
  then show "convertHighsModelStatus table code = Other"
    and "convertHighsModelStatus table code \<noteq> Optimal"
    by (simp_all add: convertHighsModelStatus_def)
next
  assume "convertHighsModelStatus table code = Optimal"
  then have "map_of table code = Some Optimal"
    by (simp add: convertHighsModelStatus_def split: option.splits)
  then show "(code, Optimal) \<in> set table" by (rule map_of_SomeD)
qed

theorem unmapped_code_is_Other_witness:
  "(99::int) \<notin> fst ` set [(7, Optimal), (8, Infeasible), (10, Unbounded)] \<and>
   convertHighsModelStatus [(7, Optimal), (8, Infeasible), (10, Unbounded)] (99::int) = Other \<and>
   convertHighsModelStatus [(7, Optimal), (8, Infeasible), (10, Unbounded)] (7::int) = Optimal \<and>
   ((7::int), Optimal) \<in> set [(7, Optimal), (8, Infeasible), (10, Unbounded)]"
  using unmapped_code_is_Other [of "99::int" "[(7, Optimal), (8, Infeasible), (10, Unbounded)]"]
    unmapped_code_is_Other [of "7::int" "[(7, Optimal), (8, Infeasible), (10, Unbounded)]"]
  by (simp add: convertHighsModelStatus_def)

end
